theory Spec2Isabelle
  imports Main "HOL-Library.AList"
begin

section \<open>Go values as the reflection code sees them\<close>

text \<open>
  The schema driver (the latest revision of the schema file, with the column-name trap
  and the deferred recover in \<open>Run\<close>) inspects its arguments through \<open>reflect\<close> only:
  it asks for the kind of a type, the element type of a pointer or slice, the name of a
  struct type and the names of its fields. A type is therefore a struct (name, field
  names), a pointer, a slice, or anything else; a value carries what is needed to
  recover its dynamic type. A struct value carries a number standing for its contents,
  \<open>0\<close> for the zero value. An \<open>interface{}\<close> argument is an optional value, \<open>None\<close>
  being the nil interface.
\<close>

datatype gotype = TStruct string "string list" | TPtr gotype | TSlice gotype | TOther

datatype goval =
    VStruct string "string list" nat
  | VNil gotype
  | VRef goval
  | VSlice gotype "goval list"
  | VOther

type_synonym iface = "goval option"

fun typeof :: "goval \<Rightarrow> gotype" where
  "typeof (VStruct n fs d) = TStruct n fs"
| "typeof (VNil t) = TPtr t"
| "typeof (VRef v) = TPtr (typeof v)"
| "typeof (VSlice t vs) = TSlice t"
| "typeof VOther = TOther"

text \<open>\<open>reflect.New(t)\<close> points to the zero value of \<open>t\<close>.\<close>

fun zero :: "gotype \<Rightarrow> goval" where
  "zero (TStruct n fs) = VStruct n fs 0"
| "zero (TPtr t) = VNil t"
| "zero (TSlice t) = VSlice t []"
| "zero TOther = VOther"

definition reflect_New :: "gotype \<Rightarrow> goval" where
  "reflect_New t = VRef (zero t)"

section \<open>Errors and panics\<close>

datatype error = Error string

datatype runtime_error =
    IndexOutOfRange
  | NilPointerDereference
  | ReflectZeroValue
  | ReflectWrongKind

datatype pval = PString string | PError error | PRuntime runtime_error

datatype 'a res = Normal 'a | Panicked pval

section \<open>The record introspector\<close>

record nameStructPair =
  name :: string
  typeRep :: goval

text \<open>
  The kind tests of the source read static types: the pointee of the argument, the
  element type of the slice. Only \<open>Elem()\<close> of a pointer looks at the value, and on a
  nil pointer yields the zero \<open>reflect.Value\<close>, whose \<open>Type()\<close> panics.
\<close>

definition structPair :: "iface \<Rightarrow> nameStructPair res" where
  "structPair i =
    (case i of
       None \<Rightarrow> Panicked (PRuntime ReflectZeroValue)
     | Some v \<Rightarrow>
        (case v of
           VNil t \<Rightarrow> Panicked (PRuntime ReflectZeroValue)
         | VRef v2 \<Rightarrow>
            (case v2 of
               VStruct n fs d \<Rightarrow> Normal \<lparr>name = n, typeRep = v\<rparr>
             | VSlice et vs \<Rightarrow>
                (if length vs = 0 then
                   (case et of
                      TPtr pt \<Rightarrow>
                       (case pt of
                          TStruct n fs \<Rightarrow> Normal \<lparr>name = n, typeRep = reflect_New pt\<rparr>
                        | _ \<Rightarrow> Panicked (PString
                            ''expected a pointer to a slice of pointers to STRUCTS''))
                    | _ \<Rightarrow> Panicked (PString
                        ''expected a pointer to slice of POINTERS to structs''))
                 else
                   (case et of
                      TPtr pt \<Rightarrow>
                       (case hd vs of
                          VRef x \<Rightarrow>
                           (case pt of
                              TStruct n fs \<Rightarrow> Normal \<lparr>name = n, typeRep = hd vs\<rparr>
                            | _ \<Rightarrow> Panicked (PString
                                ''expected a pointer to a slice of pointers to STRUCTS''))
                        | _ \<Rightarrow> Panicked (PRuntime ReflectZeroValue))
                    | _ \<Rightarrow> Panicked (PString
                        ''expected a pointer to a slice of POINTERS to structs'')))
             | _ \<Rightarrow> Panicked (PString
                 ''expected a pointer to a SLICE of pointers to structs or pointer to STRUCT''))
         | _ \<Rightarrow> Panicked (PString
             ''expected a POINTER to a slice of pointers to structs or POINTER to struct'')))"

section \<open>Strings\<close>

text \<open>\<open>strings.Index\<close>: the position of the first occurrence of \<open>sep\<close>, if any.\<close>

fun Index :: "string \<Rightarrow> string \<Rightarrow> nat option" where
  "Index [] sep = (if sep = [] then Some 0 else None)"
| "Index (c # cs) sep =
     (if take (length sep) (c # cs) = sep then Some 0
      else map_option Suc (Index cs sep))"

text \<open>
  \<open>strings.SplitN(s, sep, 2)\<close> for a non-empty separator (the driver only passes
  \<open>"_migration"\<close>): one piece when \<open>sep\<close> does not occur, otherwise the text before
  the first occurrence and the text after it.
\<close>

definition SplitN2 :: "string \<Rightarrow> string \<Rightarrow> string list" where
  "SplitN2 s sep =
    (case Index s sep of
       None \<Rightarrow> [s]
     | Some i \<Rightarrow> [take i s, drop (i + length sep) s])"

definition HasSuffix :: "string \<Rightarrow> string \<Rightarrow> bool" where
  "HasSuffix s suffix =
    (length suffix \<le> length s \<and> drop (length s - length suffix) s = suffix)"

definition is_digit :: "char \<Rightarrow> bool" where
  "is_digit c = (48 \<le> (of_char c :: nat) \<and> (of_char c :: nat) \<le> 57)"

fun digits_val :: "int \<Rightarrow> string \<Rightarrow> int" where
  "digits_val acc [] = acc"
| "digits_val acc (c # cs) = digits_val (acc * 10 + (of_char c - 48)) cs"

text \<open>
  \<open>strconv.ParseInt(s, 10, 64)\<close>: an optional sign, then at least one decimal digit and
  nothing else, and a value that fits 64 signed bits. \<open>None\<close> stands for a non-nil error.
\<close>

definition ParseInt :: "string \<Rightarrow> int option" where
  "ParseInt s =
    (if s = [] then None
     else
       let neg = (hd s = CHR ''-'');
           r = (if hd s = CHR ''+'' \<or> hd s = CHR ''-'' then tl s else s)
       in if r = [] \<or> \<not> list_all is_digit r then None
          else
            let n = digits_val 0 r
            in if \<not> neg \<and> 2 ^ 63 \<le> n then None
               else if neg \<and> 2 ^ 63 < n then None
               else Some (if neg then - n else n))"

section \<open>The logical-name check\<close>

text \<open>
  \<open>pieces[1]\<close> on a one-element split result is a run-time panic of Go, not one of the
  two diagnostics of the function.
\<close>

definition checkLogicalName :: "string \<Rightarrow> iface \<Rightarrow> unit res" where
  "checkLogicalName logical i =
    (case structPair i of
       Panicked p \<Rightarrow> Panicked p
     | Normal pair \<Rightarrow>
        (let pieces = SplitN2 (name pair) ''_migration'' in
         if pieces ! 0 \<noteq> logical then
           Panicked (PString (''can't understand logical name '' @ logical
                              @ '' with struct '' @ name pair))
         else if length pieces \<le> 1 then Panicked (PRuntime IndexOutOfRange)
         else
           (case ParseInt (pieces ! 1) of
              None \<Rightarrow> Panicked (PString (''can't understand migration number '' @ pieces ! 1
                                  @ '' in struct name '' @ name pair))
            | Some n \<Rightarrow> Normal ())))"

section \<open>Name mapping\<close>

text \<open>
  The default of \<open>StructNameToTableName\<close> and \<open>FieldNameToColumnName\<close>: an ASCII
  upper-case letter becomes its lower-case letter, preceded by an underscore unless it
  is the first byte.
\<close>

definition is_upper :: "char \<Rightarrow> bool" where
  "is_upper c = (65 \<le> (of_char c :: nat) \<and> (of_char c :: nat) \<le> 90)"

definition to_lower :: "char \<Rightarrow> char" where
  "to_lower c = char_of ((of_char c :: nat) + 32)"

fun toSnakeFrom :: "bool \<Rightarrow> string \<Rightarrow> string" where
  "toSnakeFrom first [] = []"
| "toSnakeFrom first (c # cs) =
     (if is_upper c then (if first then [] else ''_'') @ to_lower c # toSnakeFrom False cs
      else c # toSnakeFrom False cs)"

definition toSnake :: "string \<Rightarrow> string" where
  "toSnake s = toSnakeFrom True s"

text \<open>
  A value of one of the two rebindable field/column mappings: an ordinary function, or
  one of the two closures that \<open>trapColumnsForSqlite3\<close> builds over the schema (the
  field-to-column closure remembers its suffix).
\<close>

datatype namefn = Fn "string \<Rightarrow> string" | FieldTrap string | ColumnTrap

definition OLD :: string where "OLD = ''OLD''"
definition NEW :: string where "NEW = ''NEW''"

section \<open>The database and the mapper, as an oracle\<close>

text \<open>
  The SQL dialects, the \<open>Qbs\<close> accessor and the driver are outside the schema driver.
  Every call that reaches them is recorded in a trace together with the answer, and the
  answer is a function of the trace so far and of the call. A create-table call records
  the physical table name, the omitted fields and the suffix of the column-name trap in
  force on \<open>FieldNameToColumnName\<close>, if any; the accessor's calls record the omitted
  fields and that suffix too.
\<close>

fun trapSuffix :: "namefn \<Rightarrow> string option" where
  "trapSuffix (FieldTrap suffix) = Some suffix"
| "trapSuffix f = None"

datatype call =
    DbBegin
  | TxRollback
  | TxCommit
  | DbClose
  | ExecRename string string
  | ExecCreateTable string "string list" "string option"
  | ExecDropTable string
  | QbsFindAll gotype "string list" "string option"
  | QbsSave goval "string list" "string option"

datatype resp = ROk | ROkId int | ROkRows "goval list" | RErr error | RPanic pval

datatype event = Ev call resp | Diag pval

record world =
  FieldNameToColumnName :: namefn
  ColumnNameToFieldName :: namefn
  StructNameToTableName :: "string \<Rightarrow> string"
  prev :: "(string \<times> nameStructPair) list"
  curr :: "(string \<times> nameStructPair) list"
  m_nil :: bool
  oldFieldNameToColumnName :: "namefn option"
  oldColumnNameToFieldName :: "namefn option"
  reverse :: "(string \<times> string) list"
  tx :: bool
  hasColumnOperations :: bool
  catchMigrationError :: "error \<Rightarrow> bool"
  respond :: "event list \<Rightarrow> call \<Rightarrow> resp"
  trace :: "event list"

text \<open>
  \<open>prev\<close> and \<open>curr\<close> are the two Go maps of the schema, kept as association lists in
  insertion order; Go leaves the order of \<open>range\<close> over a map open, and the list order is
  one of the orders it may take. \<open>m_nil\<close> says that the schema's migration handle is nil
  (after \<open>Close\<close>), \<open>tx\<close> that the handle holds a transaction.
\<close>

type_synonym 'a M = "world \<Rightarrow> 'a res \<times> world"

definition ask :: "call \<Rightarrow> world \<Rightarrow> resp \<times> world" where
  "ask c w = (let r = respond w (trace w) c in (r, w\<lparr>trace := trace w @ [Ev c r]\<rparr>))"

section \<open>The migration handle\<close>

definition Begin :: "unit M" where
  "Begin w =
    (if m_nil w then (Panicked (PRuntime NilPointerDereference), w)
     else case ask DbBegin w of
        (RErr (Error e), w') \<Rightarrow>
          (Panicked (PString (''Unable to start transaction in migration : %s'' @ e)), w')
      | (RPanic p, w') \<Rightarrow> (Panicked p, w')
      | (_, w') \<Rightarrow> (Normal (), w'\<lparr>tx := True\<rparr>))"

definition GetQbsSameTransaction :: "unit M" where
  "GetQbsSameTransaction w =
    (if m_nil w then (Panicked (PRuntime NilPointerDereference), w)
     else if \<not> tx w then
       (Panicked (PString ''cant make a new qbs on same transaction because tx is nil!''), w)
     else (Normal (), w))"

definition HasColumnOperations :: "bool M" where
  "HasColumnOperations w =
    (if m_nil w then (Panicked (PRuntime NilPointerDereference), w)
     else (Normal (hasColumnOperations w), w))"

definition Rollback :: "unit M" where
  "Rollback w =
    (if m_nil w then (Panicked (PRuntime NilPointerDereference), w)
     else if \<not> tx w then
       (Panicked (PString ''no transaction in progress, cannot rollback!''), w)
     else case ask TxRollback w of
        (RErr (Error e), w') \<Rightarrow>
          (Panicked (PString (''unable to rollback transaction in migration: '' @ e)), w')
      | (RPanic p, w') \<Rightarrow> (Panicked p, w')
      | (_, w') \<Rightarrow> (Normal (), w'\<lparr>tx := False\<rparr>))"

definition Commit :: "unit M" where
  "Commit w =
    (if m_nil w then (Panicked (PRuntime NilPointerDereference), w)
     else if \<not> tx w then
       (Panicked (PString ''no transaction in progress, cannot commit''), w)
     else case ask TxCommit w of
        (RErr (Error e), w') \<Rightarrow>
          (Panicked (PString (''unable to commit transaction in migration: '' @ e)), w')
      | (RPanic p, w') \<Rightarrow> (Panicked p, w')
      | (_, w') \<Rightarrow> (Normal (), w'\<lparr>tx := False\<rparr>))"

text \<open>\<open>tableName\<close> of the model file: strip pointers and slices, map the type's name.\<close>

fun strip_elems :: "gotype \<Rightarrow> gotype" where
  "strip_elems (TPtr t) = strip_elems t"
| "strip_elems (TSlice t) = strip_elems t"
| "strip_elems t = t"

fun type_name :: "gotype \<Rightarrow> string" where
  "type_name (TStruct n fs) = n"
| "type_name t = []"

definition tableName :: "goval \<Rightarrow> string M" where
  "tableName v w =
    (case typeof v of
       TPtr t \<Rightarrow> (Normal (StructNameToTableName w (type_name (strip_elems t))), w)
     | TSlice t \<Rightarrow> (Normal (StructNameToTableName w (type_name (strip_elems t))), w)
     | _ \<Rightarrow> (Panicked (PRuntime ReflectWrongKind), w))"

text \<open>
  \<open>CreateTable\<close>: the table is named after the override name when one is given, after
  the prototype's type otherwise. Building the SQL, running it and creating the indexes
  is the oracle's: it answers with success, with the error that \<open>createTableBase\<close>
  returns, or with the panic it raises.
\<close>

definition CreateTable :: "string \<Rightarrow> goval \<Rightarrow> string list \<Rightarrow> (error option) M" where
  "CreateTable tblName structPtr omitFields w =
    (if m_nil w then (Panicked (PRuntime NilPointerDereference), w)
     else case tableName structPtr w of
        (Panicked p, w') \<Rightarrow> (Panicked p, w')
      | (Normal tn, w') \<Rightarrow>
         (let table = (if tblName \<noteq> [] then StructNameToTableName w' tblName else tn) in
          case ask (ExecCreateTable table omitFields (trapSuffix (FieldNameToColumnName w'))) w' of
            (RErr e, w'') \<Rightarrow> (Normal (Some e), w'')
          | (RPanic p, w'') \<Rightarrow> (Panicked p, w'')
          | (_, w'') \<Rightarrow> (Normal None, w'')))"

text \<open>\<open>DropTable\<close> maps the name that \<open>tableName\<close> has already mapped once more.\<close>

definition DropTable :: "goval \<Rightarrow> unit M" where
  "DropTable structPtr w =
    (if m_nil w then (Panicked (PRuntime NilPointerDereference), w)
     else case tableName structPtr w of
        (Panicked p, w') \<Rightarrow> (Panicked p, w')
      | (Normal tn0, w') \<Rightarrow>
         (case ask (ExecDropTable (StructNameToTableName w' tn0)) w' of
            (RErr e, w'') \<Rightarrow>
              (if catchMigrationError w'' e then (Normal (), w'') else (Panicked (PError e), w''))
          | (RPanic p, w'') \<Rightarrow> (Panicked p, w'')
          | (_, w'') \<Rightarrow> (Normal (), w'')))"

definition RenameTable :: "string \<Rightarrow> string \<Rightarrow> (error option) M" where
  "RenameTable oldname newname w =
    (if m_nil w then (Panicked (PRuntime NilPointerDereference), w)
     else case ask (ExecRename oldname newname) w of
        (RErr e, w') \<Rightarrow> (Normal (Some e), w')
      | (RPanic p, w') \<Rightarrow> (Panicked p, w')
      | (_, w') \<Rightarrow> (Normal None, w'))"

text \<open>\<open>Schema.Close\<close>: close the handle's database, then forget the handle.\<close>

definition Close :: "unit M" where
  "Close w =
    (if m_nil w then (Panicked (PRuntime NilPointerDereference), w)
     else case ask DbClose w of
        (RErr e, w') \<Rightarrow> (Panicked (PError e), w')
      | (RPanic p, w') \<Rightarrow> (Panicked p, w')
      | (_, w') \<Rightarrow> (Normal (), w'\<lparr>m_nil := True\<rparr>))"

section \<open>The schema\<close>

definition clear :: "world \<Rightarrow> world" where
  "clear w = w\<lparr>curr := [], prev := []\<rparr>"

definition flipOver :: "world \<Rightarrow> world" where
  "flipOver w = w\<lparr>curr := prev w, prev := curr w\<rparr>"

definition trapColumnsForSqlite3 :: "string \<Rightarrow> world \<Rightarrow> world" where
  "trapColumnsForSqlite3 suffix w =
     w\<lparr>oldFieldNameToColumnName := Some (FieldNameToColumnName w),
       oldColumnNameToFieldName := Some (ColumnNameToFieldName w),
       reverse := [],
       FieldNameToColumnName := FieldTrap suffix,
       ColumnNameToFieldName := ColumnTrap\<rparr>"

definition untrapColumnsForSqlite3 :: "world \<Rightarrow> world" where
  "untrapColumnsForSqlite3 w =
    (let w1 = (case oldFieldNameToColumnName w of
                 Some f \<Rightarrow> w\<lparr>FieldNameToColumnName := f, oldFieldNameToColumnName := None\<rparr>
               | None \<Rightarrow> w)
     in case oldColumnNameToFieldName w1 of
          Some g \<Rightarrow> w1\<lparr>ColumnNameToFieldName := g, oldColumnNameToFieldName := None\<rparr>
        | None \<Rightarrow> w1)"

definition fieldsWithSuffix :: "goval \<Rightarrow> string \<Rightarrow> string list res" where
  "fieldsWithSuffix structPtr suffix =
    (case typeof structPtr of
       TPtr t \<Rightarrow>
        (case t of
           TStruct n fs \<Rightarrow> Normal (filter (\<lambda>f. HasSuffix f suffix) fs)
         | _ \<Rightarrow> Panicked (PRuntime ReflectWrongKind))
     | TSlice t \<Rightarrow>
        (case t of
           TStruct n fs \<Rightarrow> Normal (filter (\<lambda>f. HasSuffix f suffix) fs)
         | _ \<Rightarrow> Panicked (PRuntime ReflectWrongKind))
     | _ \<Rightarrow> Panicked (PRuntime ReflectWrongKind))"

definition ChangeTable :: "string \<Rightarrow> iface \<Rightarrow> iface \<Rightarrow> (error option) M" where
  "ChangeTable logicalName prev_raw curr_raw w =
    (if prev_raw = None then
       (case structPair curr_raw of
          Panicked p \<Rightarrow> (Panicked p, w)
        | Normal cp \<Rightarrow> (Normal None, w\<lparr>curr := AList.update logicalName cp (curr w)\<rparr>))
     else if curr_raw = None then
       (case structPair prev_raw of
          Panicked p \<Rightarrow> (Panicked p, w)
        | Normal pp \<Rightarrow> (Normal None, w\<lparr>prev := AList.update logicalName pp (prev w)\<rparr>))
     else
       (case structPair curr_raw of
          Panicked p \<Rightarrow> (Panicked p, w)
        | Normal cp \<Rightarrow>
           (case structPair prev_raw of
              Panicked p \<Rightarrow> (Panicked p, w)
            | Normal pp \<Rightarrow>
               (Normal None, w\<lparr>prev := AList.update logicalName pp (prev w),
                               curr := AList.update logicalName cp (curr w)\<rparr>))))"

subsection \<open>The rename/shadow phase\<close>

text \<open>The first loop of \<open>renameCurrentTablesAddColumns\<close>, over \<open>prev\<close>.\<close>

fun renameLoop :: "(string \<times> nameStructPair) list \<Rightarrow> (error option) M" where
  "renameLoop [] w = (Normal None, w)"
| "renameLoop ((logicalName, pair) # rest) w =
    (case RenameTable (StructNameToTableName w logicalName)
                      (StructNameToTableName w (name pair)) w of
       (Panicked p, w') \<Rightarrow> (Panicked p, w')
     | (Normal (Some err), w') \<Rightarrow> (Normal (Some err), w')
     | (Normal None, w') \<Rightarrow> renameLoop rest w')"

text \<open>
  The second loop, over \<open>curr\<close>: trap, create the table (the omitted fields are computed
  after the trap and before the call), untrap. A panic between the two leaves the trap
  in place.
\<close>

fun createLoop :: "(string \<times> nameStructPair) list \<Rightarrow> (error option) M" where
  "createLoop [] w = (Normal None, w)"
| "createLoop ((logicalName, pair) # rest) w =
    (let w1 = trapColumnsForSqlite3 NEW w in
     case fieldsWithSuffix (typeRep pair) OLD of
       Panicked p \<Rightarrow> (Panicked p, w1)
     | Normal omit \<Rightarrow>
        (case CreateTable [] (typeRep pair) omit w1 of
           (Panicked p, w2) \<Rightarrow> (Panicked p, w2)
         | (Normal err, w2) \<Rightarrow>
            (let w3 = untrapColumnsForSqlite3 w2 in
             case err of
               Some e \<Rightarrow> (Normal (Some e), w3)
             | None \<Rightarrow> createLoop rest w3)))"

definition renameCurrentTablesAddColumns :: "bool \<Rightarrow> (error option) M" where
  "renameCurrentTablesAddColumns rv w =
    (case renameLoop (prev w) w of
       (Panicked p, w') \<Rightarrow> (Panicked p, w')
     | (Normal (Some err), w') \<Rightarrow> (Normal (Some err), w')
     | (Normal None, w') \<Rightarrow> createLoop (curr w') w')"

subsection \<open>Finalization\<close>

fun dropLoop :: "(string \<times> nameStructPair) list \<Rightarrow> unit M" where
  "dropLoop [] w = (Normal (), w)"
| "dropLoop ((logicalName, pair) # rest) w =
    (case DropTable (typeRep pair) w of
       (Panicked p, w') \<Rightarrow> (Panicked p, w')
     | (Normal u, w') \<Rightarrow> dropLoop rest w')"

fun moveLoop :: "(string \<times> nameStructPair) list \<Rightarrow> (error option) M" where
  "moveLoop [] w = (Normal None, w)"
| "moveLoop ((logicalName, pair) # rest) w =
    (case RenameTable (StructNameToTableName w (name pair))
                      (StructNameToTableName w logicalName) w of
       (Panicked p, w') \<Rightarrow> (Panicked p, w')
     | (Normal (Some err), w') \<Rightarrow> (Normal (Some err), w')
     | (Normal None, w') \<Rightarrow> moveLoop rest w')"

definition removeOldRenameColumns :: "(error option) M" where
  "removeOldRenameColumns w =
    (case dropLoop (prev w) w of
       (Panicked p, w') \<Rightarrow> (Panicked p, w')
     | (Normal u, w') \<Rightarrow> moveLoop (curr w') w')"

subsection \<open>The two operations of the data phase\<close>

text \<open>
  \<open>FindAll\<close> takes the shape from \<open>prev\<close>; a logical name that is not there gives a nil
  pair, and reading its \<open>typeRep\<close> panics. The result is a pointer to a slice of the
  shape's type holding the rows the accessor found.
\<close>

definition FindAll :: "string \<Rightarrow> (iface \<times> error option) M" where
  "FindAll logicalName w =
    (case GetQbsSameTransaction w of
       (Panicked p, w0) \<Rightarrow> (Panicked p, w0)
     | (Normal q, w0) \<Rightarrow>
        (case map_of (prev w0) logicalName of
           None \<Rightarrow> (Panicked (PRuntime NilPointerDereference), w0)
         | Some pair \<Rightarrow>
            (let w1 = trapColumnsForSqlite3 NEW w0 in
             case fieldsWithSuffix (typeRep pair) OLD of
               Panicked p \<Rightarrow> (Panicked p, w1)
             | Normal omit \<Rightarrow>
                (case ask (QbsFindAll (typeof (typeRep pair)) omit
                           (trapSuffix (FieldNameToColumnName w1))) w1 of
                   (RPanic p, w2) \<Rightarrow> (Panicked p, w2)
                 | (RErr err, w2) \<Rightarrow>
                    (case Rollback (untrapColumnsForSqlite3 w2) of
                       (Panicked p, w3) \<Rightarrow> (Panicked p, w3)
                     | (Normal u, w3) \<Rightarrow> (Normal (None, Some err), w3))
                 | (ROkRows rows, w2) \<Rightarrow>
                    (Normal (Some (VRef (VSlice (typeof (typeRep pair)) rows)), None),
                     untrapColumnsForSqlite3 w2)
                 | (_, w2) \<Rightarrow>
                    (Normal (Some (VRef (VSlice (typeof (typeRep pair)) [])), None),
                     untrapColumnsForSqlite3 w2)))))"

definition Save :: "string \<Rightarrow> iface \<Rightarrow> (int \<times> error option) M" where
  "Save logicalName curr_raw w =
    (case checkLogicalName logicalName curr_raw of
       Panicked p \<Rightarrow> (Panicked p, w)
     | Normal u \<Rightarrow>
        (case GetQbsSameTransaction w of
           (Panicked p, w0) \<Rightarrow> (Panicked p, w0)
         | (Normal q, w0) \<Rightarrow>
            (case fieldsWithSuffix (the curr_raw) OLD of
               Panicked p \<Rightarrow> (Panicked p, w0)
             | Normal omit \<Rightarrow>
                (let w1 = trapColumnsForSqlite3 NEW w0 in
                 case ask (QbsSave (the curr_raw) omit (trapSuffix (FieldNameToColumnName w1))) w1 of
                   (RPanic p, w2) \<Rightarrow> (Panicked p, w2)
                 | (RErr err, w2) \<Rightarrow>
                    (case Rollback (untrapColumnsForSqlite3 w2) of
                       (Panicked p, w3) \<Rightarrow> (Panicked p, w3)
                     | (Normal u, w3) \<Rightarrow> (Normal (0, Some err), w3))
                 | (ROkId n, w2) \<Rightarrow> (Normal (n, None), untrapColumnsForSqlite3 w2)
                 | (_, w2) \<Rightarrow> (Normal (0, None), untrapColumnsForSqlite3 w2)))))"

section \<open>Migration steps\<close>

text \<open>
  A step is user code. What it can do to the driver is call \<open>ChangeTable\<close>, \<open>FindAll\<close>
  and \<open>Save\<close> on the schema, look at what they return, and at the end return or panic:
  a program is a tree of such calls, each continuing with the result it was given.
\<close>

datatype 'r prog =
    Return 'r
  | Panic pval
  | CallChangeTable string iface iface "'r prog"
  | CallFindAll string "iface \<times> error option \<Rightarrow> 'r prog"
  | CallSave string iface "int \<times> error option \<Rightarrow> 'r prog"

primrec exec :: "'r prog \<Rightarrow> 'r M" where
  "exec (Return r) = (\<lambda>w. (Normal r, w))"
| "exec (Panic p) = (\<lambda>w. (Panicked p, w))"
| "exec (CallChangeTable l a b k) =
     (\<lambda>w. case ChangeTable l a b w of
        (Panicked p, w') \<Rightarrow> (Panicked p, w')
      | (Normal e, w') \<Rightarrow> exec k w')"
| "exec (CallFindAll l k) =
     (\<lambda>w. case FindAll l w of
        (Panicked p, w') \<Rightarrow> (Panicked p, w')
      | (Normal r, w') \<Rightarrow> exec (k r) w')"
| "exec (CallSave l v k) =
     (\<lambda>w. case Save l v w of
        (Panicked p, w') \<Rightarrow> (Panicked p, w')
      | (Normal r, w') \<Rightarrow> exec (k r) w')"

text \<open>
  The interface \<open>ReversibleMigration\<close>: \<open>Data\<close> is given the dialect's column-operation
  flag and the direction.
\<close>

record step =
  Structure :: "(error option) prog"
  Data :: "bool \<Rightarrow> bool \<Rightarrow> (int \<times> error option) prog"

text \<open>
  \<open>migrate\<close>. The value that \<open>renameCurrentTablesAddColumns\<close> returns is dropped by the
  source; the two log lines at the end are not modelled.
\<close>

definition migrate :: "step \<Rightarrow> bool \<Rightarrow> (error option) M" where
  "migrate info rv w =
    (case exec (Structure info) (clear w) of
       (Panicked p, w1) \<Rightarrow> (Panicked p, w1)
     | (Normal (Some err), w1) \<Rightarrow> (Normal (Some err), w1)
     | (Normal None, w1) \<Rightarrow>
        (case renameCurrentTablesAddColumns rv (if rv then flipOver w1 else w1) of
           (Panicked p, w3) \<Rightarrow> (Panicked p, w3)
         | (Normal dropped, w3) \<Rightarrow>
            (case HasColumnOperations w3 of
               (Panicked p, w4) \<Rightarrow> (Panicked p, w4)
             | (Normal hco, w4) \<Rightarrow>
                (case exec (Data info hco rv) w4 of
                   (Panicked p, w5) \<Rightarrow> (Panicked p, w5)
                 | (Normal (count, Some err), w5) \<Rightarrow> (Normal (Some err), w5)
                 | (Normal (count, None), w5) \<Rightarrow> removeOldRenameColumns w5))))"

section \<open>The driver\<close>

text \<open>\<open>info[i]\<close> with a Go \<open>int\<close>: out of range is a run-time panic.\<close>

definition index :: "'a list \<Rightarrow> int \<Rightarrow> 'a option" where
  "index xs i = (if 0 \<le> i \<and> i < int (length xs) then Some (xs ! nat i) else None)"

text \<open>How a loop of \<open>Run\<close> ends: it runs to its end, or \<open>Run\<close> returns an error from it.\<close>

datatype loop_exit = Completed | ReturnErr error

text \<open>The body of both \<open>if err != nil\<close> branches: roll back, close, return the error.\<close>

definition failStep :: "error \<Rightarrow> loop_exit M" where
  "failStep err w =
    (case Rollback w of
       (Panicked p, w1) \<Rightarrow> (Panicked p, w1)
     | (Normal u, w1) \<Rightarrow>
        (case Close w1 of
           (Panicked p, w2) \<Rightarrow> (Panicked p, w2)
         | (Normal u, w2) \<Rightarrow> (Normal (ReturnErr err), w2)))"

function fwdLoop :: "step list \<Rightarrow> int \<Rightarrow> int \<Rightarrow> loop_exit M" where
  "fwdLoop info i til w =
    (if i < til then
       (case index info i of
          None \<Rightarrow> (Panicked (PRuntime IndexOutOfRange), w)
        | Some st \<Rightarrow>
           (case migrate st False w of
              (Panicked p, w1) \<Rightarrow> (Panicked p, w1)
            | (Normal (Some err), w1) \<Rightarrow> failStep err w1
            | (Normal None, w1) \<Rightarrow> fwdLoop info (i + 1) til w1))
     else (Normal Completed, w))"
  by pat_completeness auto
termination
  by (relation "measure (\<lambda>(info, i, til, w). nat (til - i))") auto

function revLoop :: "step list \<Rightarrow> int \<Rightarrow> int \<Rightarrow> loop_exit M" where
  "revLoop info i til w =
    (if i \<ge> til then
       (case index info i of
          None \<Rightarrow> (Panicked (PRuntime IndexOutOfRange), w)
        | Some st \<Rightarrow>
           (case migrate st True w of
              (Panicked p, w1) \<Rightarrow> (Panicked p, w1)
            | (Normal (Some err), w1) \<Rightarrow> failStep err w1
            | (Normal None, w1) \<Rightarrow> revLoop info (i - 1) til w1))
     else (Normal Completed, w))"
  by pat_completeness auto
termination
  by (relation "measure (\<lambda>(info, i, til, w). nat (i - til + 1))") auto

text \<open>\<open>fmt.Sprintf("%v", x)\<close> of a recovered panic value.\<close>

fun Sprint :: "pval \<Rightarrow> string" where
  "Sprint (PString s) = s"
| "Sprint (PError (Error s)) = s"
| "Sprint (PRuntime IndexOutOfRange) = ''runtime error: index out of range''"
| "Sprint (PRuntime NilPointerDereference) =
     ''runtime error: invalid memory address or nil pointer dereference''"
| "Sprint (PRuntime ReflectZeroValue) = ''reflect: call of reflect.Value.Type on zero Value''"
| "Sprint (PRuntime ReflectWrongKind) = ''reflect: call of method on value of wrong kind''"

text \<open>
  The deferred function of \<open>Run\<close>, when \<open>recover\<close> yields \<open>x\<close>. A panic raised in here is
  not recovered by anything: it leaves \<open>Run\<close>.
\<close>

definition recovered :: "pval \<Rightarrow> (error option) M" where
  "recovered x w =
    (case Rollback (untrapColumnsForSqlite3 w) of
       (Panicked p, w2) \<Rightarrow> (Panicked p, w2)
     | (Normal u, w2) \<Rightarrow>
        (case Close w2 of
           (Panicked p, w3) \<Rightarrow> (Panicked p, w3)
         | (Normal u, w3) \<Rightarrow>
            (Normal (Some (Error (Sprint x))), w3\<lparr>trace := trace w3 @ [Diag x]\<rparr>)))"

text \<open>Everything of \<open>Run\<close> after the \<open>defer\<close> statement.\<close>

definition RunBody :: "step list \<Rightarrow> int \<Rightarrow> int \<Rightarrow> (error option) M" where
  "RunBody info frm til w =
    (case (if frm < til then fwdLoop info frm til w else revLoop info (frm - 1) til w) of
       (Panicked p, w1) \<Rightarrow> (Panicked p, w1)
     | (Normal (ReturnErr err), w1) \<Rightarrow> (Normal (Some err), w1)
     | (Normal Completed, w1) \<Rightarrow>
        (case Commit w1 of
           (Panicked p, w2) \<Rightarrow> (Panicked p, w2)
         | (Normal u, w2) \<Rightarrow> (Normal None, w2)))"

text \<open>
  \<open>Run\<close>. \<open>Normal e\<close> is \<open>Run\<close> returning \<open>e\<close> (\<open>None\<close> for nil); \<open>Panicked p\<close> is a panic
  that leaves \<open>Run\<close>. \<open>Begin\<close> runs before the \<open>defer\<close> statement.
\<close>

definition Run :: "step list \<Rightarrow> int \<Rightarrow> int \<Rightarrow> (error option) M" where
  "Run info frm til w =
    (if frm = til then (Normal None, w)
     else case Begin w of
        (Panicked p, w0) \<Rightarrow> (Panicked p, w0)
      | (Normal u, w0) \<Rightarrow>
         (case RunBody info frm til w0 of
            (Panicked x, w1) \<Rightarrow> recovered x w1
          | (Normal e, w1) \<Rightarrow> (Normal e, w1)))"

section \<open>A concrete setting\<close>

text \<open>
  The default of \<open>ColumnNameToFieldName\<close>. In the source's last branch the flag \<open>first\<close>
  keeps its value.
\<close>

definition is_lower :: "char \<Rightarrow> bool" where
  "is_lower c = (97 \<le> (of_char c :: nat) \<and> (of_char c :: nat) \<le> 122)"

definition to_upper :: "char \<Rightarrow> char" where
  "to_upper c = char_of ((of_char c :: nat) - 32)"

fun snakeToUpperCamelFrom :: "bool \<Rightarrow> string \<Rightarrow> string" where
  "snakeToUpperCamelFrom first [] = []"
| "snakeToUpperCamelFrom first (c # cs) =
     (if is_lower c \<and> first then to_upper c # snakeToUpperCamelFrom False cs
      else if c = CHR ''_'' then snakeToUpperCamelFrom True cs
      else c # snakeToUpperCamelFrom first cs)"

definition snakeToUpperCamel :: "string \<Rightarrow> string" where
  "snakeToUpperCamel s = snakeToUpperCamelFrom True s"

text \<open>
  \<open>NewSchema\<close> over a fresh handle on SQLite 3 (no column operations, no migration
  error caught), with the default name mappings, against the database \<open>db\<close>.
\<close>

definition NewSchema :: "(event list \<Rightarrow> call \<Rightarrow> resp) \<Rightarrow> world" where
  "NewSchema db =
     \<lparr>FieldNameToColumnName = Fn toSnake,
      ColumnNameToFieldName = Fn snakeToUpperCamel,
      StructNameToTableName = toSnake,
      prev = [], curr = [], m_nil = False,
      oldFieldNameToColumnName = None, oldColumnNameToFieldName = None,
      reverse = [], tx = False,
      hasColumnOperations = False, catchMigrationError = (\<lambda>e. False),
      respond = db, trace = []\<rparr>"

text \<open>A database on which every call succeeds.\<close>

definition dbOk :: "event list \<Rightarrow> call \<Rightarrow> resp" where
  "dbOk h c = ROk"

text \<open>A database on which the accessor's \<open>Save\<close> fails and everything else succeeds.\<close>

definition dbSaveFails :: "event list \<Rightarrow> call \<Rightarrow> resp" where
  "dbSaveFails h c = (case c of QbsSave v omit f \<Rightarrow> RErr (Error ''constraint failed'') | _ \<Rightarrow> ROk)"

text \<open>The record shapes of the test file.\<close>

definition Article_migration1 :: gotype where
  "Article_migration1 = TStruct ''Article_migration1'' [''Id'', ''Author'', ''Content'']"

definition Article_migration2 :: gotype where
  "Article_migration2 = TStruct ''Article_migration2''
     [''Id'', ''Author'', ''ContentOLD'', ''ContentNEW'', ''CreatedNEW'', ''UpdatedNEW'']"

text \<open>\<open>&T{}\<close> for a struct type \<open>T\<close>, as an \<open>interface{}\<close> argument.\<close>

definition new :: "gotype \<Rightarrow> iface" where
  "new t = Some (reflect_New t)"

text \<open>Step one of the test file creates the table, step two changes its shape.\<close>

definition Migrate1 :: step where
  "Migrate1 = \<lparr>Structure = CallChangeTable ''Article'' None (new Article_migration1) (Return None),
               Data = (\<lambda>hco rv. Return (0, None))\<rparr>"

definition Migrate2_NoData :: step where
  "Migrate2_NoData =
     \<lparr>Structure = CallChangeTable ''Article'' (new Article_migration1) (new Article_migration2)
                    (Return None),
      Data = (\<lambda>hco rv. Return (0, None))\<rparr>"

text \<open>
  Step two with a data phase that saves one new-shape record and hands the error of
  \<open>Save\<close>, if any, back to the driver.
\<close>

definition Migrate2_SaveReturn :: step where
  "Migrate2_SaveReturn =
     \<lparr>Structure = CallChangeTable ''Article'' (new Article_migration1) (new Article_migration2)
                    (Return None),
      Data = (\<lambda>hco rv. CallSave ''Article'' (new Article_migration2)
                (\<lambda>(id, err). Return (0, err)))\<rparr>"

text \<open>The same step, but its data phase panics with the error of \<open>Save\<close>.\<close>

definition Migrate2_SavePanic :: step where
  "Migrate2_SavePanic =
     \<lparr>Structure = CallChangeTable ''Article'' (new Article_migration1) (new Article_migration2)
                    (Return None),
      Data = (\<lambda>hco rv. CallSave ''Article'' (new Article_migration2)
                (\<lambda>(id, err). case err of Some e \<Rightarrow> Panic (PError e) | None \<Rightarrow> Return (1, None)))\<rparr>"

text \<open>The calls of a trace, in order, without the answers.\<close>

fun calls :: "event list \<Rightarrow> call list" where
  "calls [] = []"
| "calls (Ev c r # es) = c # calls es"
| "calls (Diag p # es) = calls es"

text \<open>
  The two rebindable mappings and the two saved copies the schema keeps of them. The
  mappings are \<open>untrapped\<close> at the pair \<open>G\<close> when they are \<open>G\<close> and nothing is saved,
  and \<open>restorable\<close> to \<open>G\<close> when \<open>untrapColumnsForSqlite3\<close> would make them so.
\<close>

definition names :: "world \<Rightarrow> namefn \<times> namefn \<times> namefn option \<times> namefn option" where
  "names w = (FieldNameToColumnName w, ColumnNameToFieldName w,
              oldFieldNameToColumnName w, oldColumnNameToFieldName w)"

definition untrapped :: "namefn \<times> namefn \<Rightarrow> world \<Rightarrow> bool" where
  "untrapped G w = (names w = (fst G, snd G, None, None))"

definition restorable :: "namefn \<times> namefn \<Rightarrow> world \<Rightarrow> bool" where
  "restorable G w = untrapped G (untrapColumnsForSqlite3 w)"

text \<open>What holds of the mappings after a call: untrapped if it returns, restorable if it panics.\<close>

definition post :: "namefn \<times> namefn \<Rightarrow> 'a res \<times> world \<Rightarrow> bool" where
  "post G rw = (case rw of (Normal x, w') \<Rightarrow> untrapped G w' | (Panicked p, w') \<Rightarrow> restorable G w')"

section \<open>The driver as the design describes it\<close>

text \<open>
  The order of steps in the words of the design: forward, the steps \<open>from\<close>, \<open>from + 1\<close>,
  ..., \<open>to - 1\<close> with the reverse flag off; backward, the steps \<open>from - 1\<close>, \<open>from - 2\<close>,
  ..., \<open>to\<close> with the reverse flag on.
\<close>

definition schedule :: "step list \<Rightarrow> int \<Rightarrow> int \<Rightarrow> (step \<times> bool) list" where
  "schedule info frm til =
    (if frm < til then map (\<lambda>k. (info ! k, False)) [nat frm ..< nat til]
     else map (\<lambda>k. (info ! k, True)) (rev [nat til ..< nat frm]))"

text \<open>Apply the steps of a list in order; the first error or panic ends it.\<close>

fun applySteps :: "(step \<times> bool) list \<Rightarrow> loop_exit M" where
  "applySteps [] w = (Normal Completed, w)"
| "applySteps ((st, rv) # rest) w =
    (case migrate st rv w of
       (Panicked p, w1) \<Rightarrow> (Panicked p, w1)
     | (Normal (Some err), w1) \<Rightarrow> failStep err w1
     | (Normal None, w1) \<Rightarrow> applySteps rest w1)"

text \<open>
  The driver in the words of the design: nothing when \<open>from = to\<close>; otherwise open a
  transaction, apply the scheduled steps, commit when all went through; a panic on the
  way is handed to the recovery.
\<close>

definition RunSpec :: "step list \<Rightarrow> int \<Rightarrow> int \<Rightarrow> (error option) M" where
  "RunSpec info frm til w =
    (if frm = til then (Normal None, w)
     else case Begin w of
        (Panicked p, w0) \<Rightarrow> (Panicked p, w0)
      | (Normal u, w0) \<Rightarrow>
         (case applySteps (schedule info frm til) w0 of
            (Panicked x, w1) \<Rightarrow> recovered x w1
          | (Normal (ReturnErr err), w1) \<Rightarrow> (Normal (Some err), w1)
          | (Normal Completed, w1) \<Rightarrow>
             (case Commit w1 of
                (Panicked x, w2) \<Rightarrow> recovered x w2
              | (Normal u, w2) \<Rightarrow> (Normal None, w2))))"

section \<open>Counting commits\<close>

text \<open>
  The events of a trace that are calls of \<open>tx.Commit()\<close>, how many there are, and how
  many of them the database answered without an error or a panic.
\<close>

fun isCommit :: "event \<Rightarrow> bool" where
  "isCommit (Ev TxCommit r) = True"
| "isCommit e = False"

fun committed :: "event \<Rightarrow> bool" where
  "committed (Ev TxCommit (RErr e)) = False"
| "committed (Ev TxCommit (RPanic p)) = False"
| "committed (Ev TxCommit r) = True"
| "committed e = False"

definition commitEvents :: "world \<Rightarrow> event list" where
  "commitEvents w = filter isCommit (trace w)"

definition commitCalls :: "world \<Rightarrow> nat" where
  "commitCalls w = length (commitEvents w)"

definition commitsDone :: "world \<Rightarrow> nat" where
  "commitsDone w = length (filter committed (commitEvents w))"

section \<open>The name format in the words of the design\<close>

text \<open>A base-10 integer: an optional sign, then digits, at least one.\<close>

definition base10_integer :: "string \<Rightarrow> bool" where
  "base10_integer s =
    (case s of
       [] \<Rightarrow> False
     | c # cs \<Rightarrow>
        (if c = CHR ''+'' \<or> c = CHR ''-'' then cs \<noteq> [] \<and> list_all is_digit cs
         else list_all is_digit (c # cs)))"

text \<open>
  A type name has the form \<open>L_migration<integer>\<close> when splitting it on \<open>_migration\<close>
  gives two pieces, the left one \<open>L\<close> and the right one a base-10 integer.
\<close>

definition name_format :: "string \<Rightarrow> string \<Rightarrow> bool" where
  "name_format L n =
    (case SplitN2 n ''_migration'' of
       [l, r] \<Rightarrow> l = L \<and> base10_integer r
     | _ \<Rightarrow> False)"

text \<open>A record is well named for \<open>L\<close> when the introspector finds a type name of that form.\<close>

definition well_named :: "string \<Rightarrow> iface \<Rightarrow> bool" where
  "well_named L i =
    (case structPair i of
       Normal pair \<Rightarrow> name_format L (name pair)
     | Panicked p \<Rightarrow> False)"

text \<open>
  A step that declares the change of \<open>Article\<close> from a shape named \<open>Foo\<close> and whose data
  phase reads the old rows.
\<close>

definition Foo :: gotype where
  "Foo = TStruct ''Foo'' [''Id'']"

definition Migrate_FromFoo :: step where
  "Migrate_FromFoo =
     \<lparr>Structure = CallChangeTable ''Article'' (new Foo) (new Article_migration2) (Return None),
      Data = (\<lambda>hco rv. CallFindAll ''Article'' (\<lambda>(rows, err). Return (0, err)))\<rparr>"

section \<open>The calls of the two table phases\<close>

text \<open>The calls that a trace has gained from one world to a later one.\<close>

definition newCalls :: "world \<Rightarrow> world \<Rightarrow> call list" where
  "newCalls w w' = drop (length (calls (trace w))) (calls (trace w'))"

text \<open>
  The struct type behind a prototype, as \<open>tableName\<close> and \<open>fieldsWithSuffix\<close> find it:
  its name and its fields.
\<close>

definition protoName :: "goval \<Rightarrow> string" where
  "protoName v = type_name (strip_elems (typeof v))"

definition protoFields :: "goval \<Rightarrow> string list" where
  "protoFields v =
    (case typeof v of
       TPtr t \<Rightarrow> (case t of TStruct n fs \<Rightarrow> fs | _ \<Rightarrow> [])
     | TSlice t \<Rightarrow> (case t of TStruct n fs \<Rightarrow> fs | _ \<Rightarrow> [])
     | _ \<Rightarrow> [])"

text \<open>The call each loop of the two phases makes for one entry of the registry.\<close>

definition renameCall :: "(string \<Rightarrow> string) \<Rightarrow> string \<times> nameStructPair \<Rightarrow> call" where
  "renameCall S e = ExecRename (S (fst e)) (S (name (snd e)))"

definition createCall :: "(string \<Rightarrow> string) \<Rightarrow> string \<times> nameStructPair \<Rightarrow> call" where
  "createCall S e =
     ExecCreateTable (S (protoName (typeRep (snd e))))
       (filter (\<lambda>f. HasSuffix f OLD) (protoFields (typeRep (snd e)))) (Some NEW)"

definition dropCall :: "(string \<Rightarrow> string) \<Rightarrow> string \<times> nameStructPair \<Rightarrow> call" where
  "dropCall S e = ExecDropTable (S (S (protoName (typeRep (snd e)))))"

definition moveCall :: "(string \<Rightarrow> string) \<Rightarrow> string \<times> nameStructPair \<Rightarrow> call" where
  "moveCall S e = ExecRename (S (name (snd e))) (S (fst e))"

text \<open>What the two phases read and leave alone: the table-name mapping and the registry.\<close>

definition registry ::
  "world \<Rightarrow> (string \<Rightarrow> string) \<times> (string \<times> nameStructPair) list \<times> (string \<times> nameStructPair) list" where
  "registry w = (StructNameToTableName w, prev w, curr w)"

text \<open>The world in which step two of the test file has declared its shapes (forward).\<close>

definition declared2 :: world where
  "declared2 = snd (exec (Structure Migrate2_NoData) (clear (snd (Begin (NewSchema dbOk)))))"

text \<open>The world in which step one has declared its shape and the registry is flipped (backward).\<close>

definition declared1_reversed :: world where
  "declared1_reversed =
     flipOver (snd (exec (Structure Migrate1) (clear (snd (Begin (NewSchema dbOk))))))"

text \<open>
  A value is well typed when every element of a slice has the slice's element type.
\<close>

fun wt :: "goval \<Rightarrow> bool" where
  "wt (VRef v) = wt v"
| "wt (VSlice t vs) = (\<forall>v \<in> set vs. wt v \<and> typeof v = t)"
| "wt v = True"

text \<open>
  The two steps the test file simulates a failure with: a structure phase that returns
  an error, and one that panics.
\<close>

definition Migrate_StructureError :: step where
  "Migrate_StructureError =
     \<lparr>Structure = Return (Some (Error ''simulated to check transactions'')),
      Data = (\<lambda>hco rv. Return (0, None))\<rparr>"

definition Migrate_StructurePanic :: step where
  "Migrate_StructurePanic =
     \<lparr>Structure = Panic (PString ''simulated to check transactions''),
      Data = (\<lambda>hco rv. Return (0, None))\<rparr>"

text \<open>
  A step that drops \<open>Article\<close> and whose data phase calls \<open>Save\<close>, ignores the error
  \<open>Save\<close> returns and reports success.
\<close>

definition Migrate_DropSwallow :: step where
  "Migrate_DropSwallow =
     \<lparr>Structure = CallChangeTable ''Article'' (new Article_migration1) None (Return None),
      Data = (\<lambda>hco rv. CallSave ''Article'' (new Article_migration1)
                (\<lambda>(id, err). Return (0, None)))\<rparr>"

section \<open>Properties of the string functions\<close>

lemma Index_None_iff: "Index s sep = None \<longleftrightarrow> (\<forall>a b. s \<noteq> a @ sep @ b)"
proof (induction s)
  case Nil
  then show ?case by auto
next
  case (Cons c cs)
  show ?case
  proof (cases "take (length sep) (c # cs) = sep")
    case True
    then have "c # cs = [] @ sep @ drop (length sep) (c # cs)"
      by (metis append_Nil append_take_drop_id)
    with True show ?thesis by (simp del: append_Nil) blast
  next
    case False
    have "(\<exists>a b. c # cs = a @ sep @ b) \<longleftrightarrow> (\<exists>a b. cs = a @ sep @ b)"
    proof
      assume "\<exists>a b. c # cs = a @ sep @ b"
      then obtain a b where ab: "c # cs = a @ sep @ b" by blast
      show "\<exists>a b. cs = a @ sep @ b"
      proof (cases a)
        case Nil
        with ab have "take (length sep) (c # cs) = sep" by simp
        with False show ?thesis by simp
      next
        case (Cons x xs)
        with ab show ?thesis by auto
      qed
    next
      assume "\<exists>a b. cs = a @ sep @ b"
      then obtain a b where "cs = a @ sep @ b" by blast
      then have "c # cs = (c # a) @ sep @ b" by simp
      then show "\<exists>a b. c # cs = a @ sep @ b" by blast
    qed
    with False Cons show ?thesis by auto
  qed
qed

section \<open>The record introspector on sequences\<close>

text \<open>
  C9. Given a pointer to a slice whose element type is pointer-to-struct: when the slice
  is non-empty and its first element points to a record, \<open>structPair\<close> returns that
  first element as the prototype; when the slice is empty it returns a pointer to a
  fresh zero value of the struct type and does not fail. In both cases the name is the
  name of the element struct type. (A nil first element is no reference to a record;
  there \<open>Elem()\<close> yields the zero value and the function panics.)
\<close>

theorem structPair_slice_prototype:
  "structPair (Some (VRef (VSlice (TPtr (TStruct n fs)) (VRef x # rest))))
     = Normal \<lparr>name = n, typeRep = VRef x\<rparr>
   \<and> structPair (Some (VRef (VSlice (TPtr (TStruct n fs)) [])))
     = Normal \<lparr>name = n, typeRep = VRef (VStruct n fs 0)\<rparr>"
  by (simp add: structPair_def reflect_New_def)

theorem structPair_slice_prototype_witness:
  "structPair (Some (VRef (VSlice (TPtr Article_migration1)
      [VRef (VStruct ''Article_migration1'' [''Id'', ''Author'', ''Content''] 7)])))
     = Normal \<lparr>name = ''Article_migration1'',
               typeRep = VRef (VStruct ''Article_migration1'' [''Id'', ''Author'', ''Content''] 7)\<rparr>
   \<and> structPair (Some (VRef (VSlice (TPtr Article_migration1) [])))
     = Normal \<lparr>name = ''Article_migration1'',
               typeRep = VRef (VStruct ''Article_migration1'' [''Id'', ''Author'', ''Content''] 0)\<rparr>"
  using structPair_slice_prototype
    [of "''Article_migration1''" "[''Id'', ''Author'', ''Content'']"
        "VStruct ''Article_migration1'' [''Id'', ''Author'', ''Content''] 7" "[]"]
  by (simp add: Article_migration1_def)

lemma structPair_nil_first_element:
  "structPair (Some (VRef (VSlice (TPtr t) (VNil t # rest)))) = Panicked (PRuntime ReflectZeroValue)"
  by (simp add: structPair_def)

section \<open>The logical-name check on a name without the infix\<close>

text \<open>
  C10. When the record's type name does not contain \<open>_migration\<close> and equals the logical
  name, the split has one piece, the comparison of the left piece passes, and reading
  the second piece is an index out of range: \<open>checkLogicalName\<close>, and \<open>Save\<close> with it,
  stops with that run-time panic and not with one of the two diagnostics.
\<close>

theorem checkLogicalName_bare_name_index_panic:
  assumes "structPair i = Normal pair"
    and "name pair = logical"
    and "\<not> (\<exists>a b. name pair = a @ ''_migration'' @ b)"
  shows "SplitN2 (name pair) ''_migration'' = [logical]
       \<and> checkLogicalName logical i = Panicked (PRuntime IndexOutOfRange)
       \<and> Save logical i w = (Panicked (PRuntime IndexOutOfRange), w)"
proof -
  from assms(3) have "Index (name pair) ''_migration'' = None"
    using Index_None_iff by blast
  then have sp: "SplitN2 (name pair) ''_migration'' = [logical]"
    using assms(2) by (simp add: SplitN2_def)
  then have chk: "checkLogicalName logical i = Panicked (PRuntime IndexOutOfRange)"
    using assms(1) by (simp add: checkLogicalName_def)
  then show ?thesis using sp by (simp add: Save_def)
qed

theorem checkLogicalName_bare_name_index_panic_witness:
  "structPair (new (TStruct ''Article'' [''Id'']))
     = Normal \<lparr>name = ''Article'', typeRep = VRef (VStruct ''Article'' [''Id''] 0)\<rparr>
   \<and> SplitN2 ''Article'' ''_migration'' = [''Article'']
   \<and> checkLogicalName ''Article'' (new (TStruct ''Article'' [''Id'']))
     = Panicked (PRuntime IndexOutOfRange)"
proof -
  let ?i = "new (TStruct ''Article'' [''Id''])"
  let ?p = "\<lparr>name = ''Article'', typeRep = VRef (VStruct ''Article'' [''Id''] 0)\<rparr>"
  have a: "structPair ?i = Normal ?p"
    by (simp add: structPair_def new_def reflect_New_def)
  have "Index ''Article'' ''_migration'' = None" by simp
  then have c: "\<not> (\<exists>a b. name ?p = a @ ''_migration'' @ b)"
    using Index_None_iff by simp
  show ?thesis
    using checkLogicalName_bare_name_index_panic [OF a _ c, of "''Article''"] a by simp
qed

section \<open>The name mappings across a run\<close>

lemmas prim_splits = prod.splits resp.splits error.splits res.splits option.splits gotype.splits

lemma names_ask [simp]: "names (snd (ask c w)) = names w"
  by (simp add: ask_def names_def Let_def)

lemma names_Begin [simp]: "names (snd (Begin w)) = names w"
  by (simp add: Begin_def ask_def names_def Let_def split: prim_splits)

lemma names_Rollback [simp]: "names (snd (Rollback w)) = names w"
  by (simp add: Rollback_def ask_def names_def Let_def split: prim_splits)

lemma names_Commit [simp]: "names (snd (Commit w)) = names w"
  by (simp add: Commit_def ask_def names_def Let_def split: prim_splits)

lemma names_Close [simp]: "names (snd (Close w)) = names w"
  by (simp add: Close_def ask_def names_def Let_def split: prim_splits)

lemma names_GetQbs [simp]: "names (snd (GetQbsSameTransaction w)) = names w"
  by (simp add: GetQbsSameTransaction_def)

lemma names_HasColumnOperations [simp]: "names (snd (HasColumnOperations w)) = names w"
  by (simp add: HasColumnOperations_def)

lemma names_RenameTable [simp]: "names (snd (RenameTable a b w)) = names w"
  by (simp add: RenameTable_def ask_def names_def Let_def split: prim_splits)

lemma names_CreateTable [simp]: "names (snd (CreateTable a b c w)) = names w"
  by (simp add: CreateTable_def tableName_def ask_def names_def Let_def split: prim_splits)

lemma names_DropTable [simp]: "names (snd (DropTable v w)) = names w"
  by (simp add: DropTable_def tableName_def ask_def names_def Let_def split: prim_splits)

lemma names_ChangeTable [simp]: "names (snd (ChangeTable l a b w)) = names w"
  by (simp add: ChangeTable_def names_def split: res.splits)

lemma names_clear [simp]: "names (clear w) = names w"
  by (simp add: clear_def names_def)

lemma names_flipOver [simp]: "names (flipOver w) = names w"
  by (simp add: flipOver_def names_def)


lemma restorable_names: "names w' = names w \<Longrightarrow> restorable G w' = restorable G w"
  by (auto simp add: restorable_def untrapped_def untrapColumnsForSqlite3_def names_def Let_def split: option.splits)


lemma restorable_untrap: "restorable G w \<Longrightarrow> untrapped G (untrapColumnsForSqlite3 w)"
  by (simp add: restorable_def)





lemma post_Normal [simp]: "post G (Normal x, w) = untrapped G w"
  by (simp add: post_def)

lemma post_Panicked [simp]: "post G (Panicked p, w) = restorable G w"
  by (simp add: post_def)

lemma names_renameLoop [simp]: "names (snd (renameLoop ps w)) = names w"
proof (induction ps arbitrary: w)
  case Nil
  show ?case by simp
next
  case (Cons a ps)
  obtain l pr where a: "a = (l, pr)" by (cases a)
  let ?c = "RenameTable (StructNameToTableName w l) (StructNameToTableName w (name pr)) w"
  have n: "names (snd ?c) = names w" by simp
  show ?case
  proof (cases ?c)
    case (Pair r w')
    with n have n': "names w' = names w" by simp
    show ?thesis using Pair n' Cons.IH [of w'] a
      by (simp split: res.splits option.splits)
  qed
qed

lemma names_moveLoop [simp]: "names (snd (moveLoop ps w)) = names w"
proof (induction ps arbitrary: w)
  case Nil
  show ?case by simp
next
  case (Cons a ps)
  obtain l pr where a: "a = (l, pr)" by (cases a)
  let ?c = "RenameTable (StructNameToTableName w (name pr)) (StructNameToTableName w l) w"
  have n: "names (snd ?c) = names w" by simp
  show ?case
  proof (cases ?c)
    case (Pair r w')
    with n have n': "names w' = names w" by simp
    show ?thesis using Pair n' Cons.IH [of w'] a
      by (simp split: res.splits option.splits)
  qed
qed

lemma names_dropLoop [simp]: "names (snd (dropLoop ps w)) = names w"
proof (induction ps arbitrary: w)
  case Nil
  show ?case by simp
next
  case (Cons a ps)
  obtain l pr where a: "a = (l, pr)" by (cases a)
  let ?c = "DropTable (typeRep pr) w"
  have n: "names (snd ?c) = names w" by simp
  show ?case
  proof (cases ?c)
    case (Pair r w')
    with n have n': "names w' = names w" by simp
    show ?thesis using Pair n' Cons.IH [of w'] a
      by (simp split: res.splits)
  qed
qed

lemma names_removeOldRenameColumns [simp]: "names (snd (removeOldRenameColumns w)) = names w"
proof (cases "dropLoop (prev w) w")
  case (Pair r w')
  have "names (snd (dropLoop (prev w) w)) = names w" by simp
  with Pair have n': "names w' = names w" by simp
  have "names (snd (moveLoop (curr w') w')) = names w'" by simp
  with Pair n' show ?thesis
    by (simp add: removeOldRenameColumns_def split: res.splits)
qed





lemma restorable_keep: "restorable G w \<Longrightarrow> names w' = names w \<Longrightarrow> restorable G w'"
  using restorable_names by blast

lemma names_untrap_cong:
  "names w' = names w \<Longrightarrow> names (untrapColumnsForSqlite3 w') = names (untrapColumnsForSqlite3 w)"
  by (auto simp add: untrapColumnsForSqlite3_def names_def Let_def split: option.splits)









lemma names_failStep [simp]: "names (snd (failStep err w)) = names w"
proof -
  obtain r1 w1 where e1: "Rollback w = (r1, w1)" by (cases "Rollback w")
  have "names (snd (Rollback w)) = names w" by simp
  with e1 have n1: "names w1 = names w" by simp
  obtain r2 w2 where e2: "Close w1 = (r2, w2)" by (cases "Close w1")
  have "names (snd (Close w1)) = names w1" by simp
  with e2 have n2: "names w2 = names w1" by simp
  show ?thesis using e1 e2 n1 n2 by (cases r1; cases r2) (simp_all add: failStep_def)
qed


declare fwdLoop.simps [simp del] revLoop.simps [simp del]








section \<open>The order of the steps\<close>

lemma index_in_range: "0 \<le> i \<Longrightarrow> i < int (length xs) \<Longrightarrow> index xs i = Some (xs ! nat i)"
  by (simp add: index_def)

lemma fwdLoop_applySteps:
  "0 \<le> i \<Longrightarrow> til \<le> int (length info) \<Longrightarrow>
   fwdLoop info i til w = applySteps (map (\<lambda>k. (info ! k, False)) [nat i ..< nat til]) w"
proof (induction "nat (til - i)" arbitrary: i w)
  case 0
  then have "\<not> i < til" by simp
  then show ?case by (simp add: fwdLoop.simps [of info i til w])
next
  case (Suc n)
  then have lt: "i < til" by simp
  have ix: "index info i = Some (info ! nat i)"
    using index_in_range [of i info] lt Suc.prems by simp
  have up: "[nat i ..< nat til] = nat i # [nat (i + 1) ..< nat til]"
    using lt Suc.prems(1) by (simp add: upt_conv_Cons nat_add_distrib)
  have m: "n = nat (til - (i + 1))" using Suc.hyps(2) by simp
  have ih: "\<And>w1. fwdLoop info (i + 1) til w1
        = applySteps (map (\<lambda>k. (info ! k, False)) [nat (i + 1) ..< nat til]) w1"
    using Suc.hyps(1) [OF m] Suc.prems by simp
  show ?case using lt ix up ih
    by (simp add: fwdLoop.simps [of info i til w] split: prod.splits res.splits option.splits)
qed

lemma revLoop_applySteps:
  "0 \<le> til \<Longrightarrow> i < int (length info) \<Longrightarrow>
   revLoop info i til w = applySteps (map (\<lambda>k. (info ! k, True)) (rev [nat til ..< nat (i + 1)])) w"
proof (induction "nat (i - til + 1)" arbitrary: i w)
  case 0
  then have "\<not> til \<le> i" by simp
  then show ?case using "0.prems" by (simp add: revLoop.simps [of info i til w])
next
  case (Suc n)
  then have le: "til \<le> i" by simp
  have ix: "index info i = Some (info ! nat i)"
    using index_in_range [of i info] le Suc.prems by simp
  have "nat (i + 1) = Suc (nat i)" using le Suc.prems(1) by simp
  then have up: "rev [nat til ..< nat (i + 1)] = nat i # rev [nat til ..< nat i]"
    using le Suc.prems(1) by simp
  have m: "n = nat (i - 1 - til + 1)" using Suc.hyps(2) by simp
  have ih: "\<And>w1. revLoop info (i - 1) til w1
        = applySteps (map (\<lambda>k. (info ! k, True)) (rev [nat til ..< nat i])) w1"
    using Suc.hyps(1) [OF m] Suc.prems by simp
  show ?case using le ix up ih
    by (simp add: revLoop.simps [of info i til w] split: prod.splits res.splits option.splits)
qed

text \<open>
  C4. For indices within the step list: \<open>Run\<close> is the driver of the design over the
  schedule; the schedule of a forward run is \<open>info[from]\<close>, \<open>info[from+1]\<close>, ...,
  \<open>info[to-1]\<close>, each with the reverse flag off, that of a backward run is
  \<open>info[from-1]\<close>, \<open>info[from-2]\<close>, ..., \<open>info[to]\<close>, each with the reverse flag on; and
  when \<open>from = to\<close>, \<open>Run\<close> returns nil and leaves the world as it was: no transaction is
  opened and the trace of database calls does not grow.
\<close>

theorem Run_applies_schedule:
  assumes "0 \<le> frm" and "0 \<le> til"
    and "frm \<le> int (length info)" and "til \<le> int (length info)"
  shows "Run info frm til w = RunSpec info frm til w
       \<and> (frm = til \<longrightarrow> Run info frm til w = (Normal None, w))
       \<and> (frm < til \<longrightarrow>
            schedule info frm til = map (\<lambda>k. (info ! k, False)) [nat frm ..< nat til])
       \<and> (til < frm \<longrightarrow>
            schedule info frm til = map (\<lambda>k. (info ! k, True)) (rev [nat til ..< nat frm]))"
proof -
  have f: "frm < til \<Longrightarrow> fwdLoop info frm til w0 = applySteps (schedule info frm til) w0" for w0
    using fwdLoop_applySteps [of frm til info w0] assms by (simp add: schedule_def)
  have r: "til < frm \<Longrightarrow> revLoop info (frm - 1) til w0 = applySteps (schedule info frm til) w0" for w0
    using revLoop_applySteps [of til "frm - 1" info w0] assms by (simp add: schedule_def)
  have sched: "(frm < til \<longrightarrow>
            schedule info frm til = map (\<lambda>k. (info ! k, False)) [nat frm ..< nat til])
       \<and> (til < frm \<longrightarrow>
            schedule info frm til = map (\<lambda>k. (info ! k, True)) (rev [nat til ..< nat frm]))"
    by (simp add: schedule_def)
  have "Run info frm til w = RunSpec info frm til w
       \<and> (frm = til \<longrightarrow> Run info frm til w = (Normal None, w))"
  proof (cases "frm = til")
    case True
    then show ?thesis by (simp add: Run_def RunSpec_def)
  next
    case False
    show ?thesis
    proof (cases "frm < til")
      case True
      then show ?thesis using f
        by (simp add: Run_def RunSpec_def RunBody_def split: prod.splits res.splits loop_exit.splits)
    next
      case ge: False
      with False have "til < frm" by simp
      then show ?thesis using r ge False
        by (simp add: Run_def RunSpec_def RunBody_def split: prod.splits res.splits loop_exit.splits)
    qed
  qed
  with sched show ?thesis by simp
qed

theorem Run_applies_schedule_witness:
  "schedule [Migrate1, Migrate2_NoData] 2 0 = [(Migrate2_NoData, True), (Migrate1, True)]
   \<and> schedule [Migrate1, Migrate2_NoData] 0 2 = [(Migrate1, False), (Migrate2_NoData, False)]
   \<and> Run [Migrate1, Migrate2_NoData] 2 0 (NewSchema dbOk)
     = RunSpec [Migrate1, Migrate2_NoData] 2 0 (NewSchema dbOk)
   \<and> Run [Migrate1, Migrate2_NoData] 0 2 (NewSchema dbOk)
     = RunSpec [Migrate1, Migrate2_NoData] 0 2 (NewSchema dbOk)
   \<and> Run [Migrate1, Migrate2_NoData] 1 1 (NewSchema dbOk) = (Normal None, NewSchema dbOk)"
  using Run_applies_schedule [of 2 0 "[Migrate1, Migrate2_NoData]" "NewSchema dbOk"]
        Run_applies_schedule [of 0 2 "[Migrate1, Migrate2_NoData]" "NewSchema dbOk"]
        Run_applies_schedule [of 1 1 "[Migrate1, Migrate2_NoData]" "NewSchema dbOk"]
  by (simp add: upt_conv_Cons RunSpec_def)

section \<open>Commits of a run\<close>

lemma ce_ask: "c \<noteq> TxCommit \<Longrightarrow> commitEvents (snd (ask c w)) = commitEvents w"
  by (cases c) (simp_all add: ask_def commitEvents_def Let_def)

lemma ce_upd [simp]:
  "commitEvents (w\<lparr>tx := b\<rparr>) = commitEvents w"
  "commitEvents (w\<lparr>m_nil := b\<rparr>) = commitEvents w"
  "commitEvents (w\<lparr>prev := ps\<rparr>) = commitEvents w"
  "commitEvents (w\<lparr>curr := cs\<rparr>) = commitEvents w"
  by (simp_all add: commitEvents_def)

lemma ce_Begin [simp]: "commitEvents (snd (Begin w)) = commitEvents w"
proof -
  have "commitEvents (snd (ask DbBegin w)) = commitEvents w" by (simp add: ce_ask)
  then show ?thesis
    by (cases "ask DbBegin w") (simp add: Begin_def split: prim_splits)
qed

lemma ce_Rollback [simp]: "commitEvents (snd (Rollback w)) = commitEvents w"
proof -
  have "commitEvents (snd (ask TxRollback w)) = commitEvents w" by (simp add: ce_ask)
  then show ?thesis
    by (cases "ask TxRollback w") (simp add: Rollback_def split: prim_splits)
qed

lemma ce_Close [simp]: "commitEvents (snd (Close w)) = commitEvents w"
proof -
  have "commitEvents (snd (ask DbClose w)) = commitEvents w" by (simp add: ce_ask)
  then show ?thesis
    by (cases "ask DbClose w") (simp add: Close_def split: prim_splits)
qed

lemma ce_RenameTable [simp]: "commitEvents (snd (RenameTable a b w)) = commitEvents w"
proof -
  have "commitEvents (snd (ask (ExecRename a b) w)) = commitEvents w" by (simp add: ce_ask)
  then show ?thesis
    by (cases "ask (ExecRename a b) w") (simp add: RenameTable_def split: prim_splits)
qed

lemma tableName_snd [simp]: "snd (tableName v w) = w"
  by (simp add: tableName_def split: gotype.splits)

lemma ce_CreateTable [simp]: "commitEvents (snd (CreateTable a b c w)) = commitEvents w"
proof (cases "tableName b w")
  case (Pair r w')
  then have w': "w' = w" using tableName_snd [of b w] by simp
  show ?thesis
  proof (cases r)
    case (Panicked p)
    with Pair w' show ?thesis by (simp add: CreateTable_def)
  next
    case (Normal tn)
    let ?c = "ExecCreateTable (if a \<noteq> [] then StructNameToTableName w a else tn) c
                (trapSuffix (FieldNameToColumnName w))"
    have "commitEvents (snd (ask ?c w)) = commitEvents w" by (simp add: ce_ask)
    with Pair w' Normal show ?thesis
      by (cases "ask ?c w") (simp add: CreateTable_def Let_def split: prim_splits)
  qed
qed

lemma ce_DropTable [simp]: "commitEvents (snd (DropTable v w)) = commitEvents w"
proof (cases "tableName v w")
  case (Pair r w')
  then have w': "w' = w" using tableName_snd [of v w] by simp
  show ?thesis
  proof (cases r)
    case (Panicked p)
    with Pair w' show ?thesis by (simp add: DropTable_def)
  next
    case (Normal tn)
    let ?c = "ExecDropTable (StructNameToTableName w tn)"
    have "commitEvents (snd (ask ?c w)) = commitEvents w" by (simp add: ce_ask)
    with Pair w' Normal show ?thesis
      by (cases "ask ?c w") (simp add: DropTable_def Let_def split: prim_splits)
  qed
qed

lemma ce_ChangeTable [simp]: "commitEvents (snd (ChangeTable l a b w)) = commitEvents w"
  by (simp add: ChangeTable_def split: res.splits)

lemma ce_clear [simp]: "commitEvents (clear w) = commitEvents w"
  by (simp add: clear_def commitEvents_def)

lemma ce_flipOver [simp]: "commitEvents (flipOver w) = commitEvents w"
  by (simp add: flipOver_def commitEvents_def)

lemma ce_trap [simp]: "commitEvents (trapColumnsForSqlite3 s w) = commitEvents w"
  by (simp add: trapColumnsForSqlite3_def commitEvents_def)

lemma ce_untrap [simp]: "commitEvents (untrapColumnsForSqlite3 w) = commitEvents w"
  by (simp add: untrapColumnsForSqlite3_def commitEvents_def Let_def split: option.splits)


lemma ce_step:
  assumes "commitEvents (snd (f w)) = commitEvents w"
    and "\<And>r w'. commitEvents w' = commitEvents w \<Longrightarrow> commitEvents (snd (g r w')) = commitEvents w'"
  shows "commitEvents (snd (case f w of (r, w') \<Rightarrow> g r w')) = commitEvents w"
proof (cases "f w")
  case (Pair r w')
  with assms(1) have "commitEvents w' = commitEvents w" by simp
  with assms(2) [of w' r] Pair show ?thesis by simp
qed

lemma ce_renameLoop [simp]: "commitEvents (snd (renameLoop ps w)) = commitEvents w"
proof (induction ps arbitrary: w)
  case Nil
  show ?case by simp
next
  case (Cons a ps)
  obtain l pr where a: "a = (l, pr)" by (cases a)
  show ?case unfolding a renameLoop.simps
    by (rule ce_step) (simp_all add: Cons.IH split: res.splits option.splits)
qed

lemma ce_moveLoop [simp]: "commitEvents (snd (moveLoop ps w)) = commitEvents w"
proof (induction ps arbitrary: w)
  case Nil
  show ?case by simp
next
  case (Cons a ps)
  obtain l pr where a: "a = (l, pr)" by (cases a)
  show ?case unfolding a moveLoop.simps
    by (rule ce_step) (simp_all add: Cons.IH split: res.splits option.splits)
qed

lemma ce_dropLoop [simp]: "commitEvents (snd (dropLoop ps w)) = commitEvents w"
proof (induction ps arbitrary: w)
  case Nil
  show ?case by simp
next
  case (Cons a ps)
  obtain l pr where a: "a = (l, pr)" by (cases a)
  show ?case unfolding a dropLoop.simps
    by (rule ce_step) (simp_all add: Cons.IH split: res.splits)
qed

lemma ce_createLoop [simp]: "commitEvents (snd (createLoop cs w)) = commitEvents w"
proof (induction cs arbitrary: w)
  case Nil
  show ?case by simp
next
  case (Cons a cs)
  obtain l pr where a: "a = (l, pr)" by (cases a)
  show ?case
  proof (cases "fieldsWithSuffix (typeRep pr) OLD")
    case (Panicked p)
    with a show ?thesis by (simp add: Let_def)
  next
    case (Normal omit)
    have "commitEvents (snd (createLoop ((l, pr) # cs) w))
          = commitEvents (trapColumnsForSqlite3 NEW w)"
      apply (simp only: createLoop.simps Let_def Normal res.case)
      apply (rule ce_step)
       apply (simp_all add: Cons.IH split: res.splits option.splits)
      done
    with a show ?thesis by simp
  qed
qed

lemma ce_renameCurrentTablesAddColumns [simp]:
  "commitEvents (snd (renameCurrentTablesAddColumns rv w)) = commitEvents w"
  unfolding renameCurrentTablesAddColumns_def
  by (rule ce_step) (simp_all split: res.splits option.splits)

lemma ce_removeOldRenameColumns [simp]:
  "commitEvents (snd (removeOldRenameColumns w)) = commitEvents w"
  unfolding removeOldRenameColumns_def
  by (rule ce_step) (simp_all split: res.splits option.splits)

lemma ce_GetQbs [simp]: "snd (GetQbsSameTransaction w) = w"
  by (simp add: GetQbsSameTransaction_def)

lemma ce_HasColumnOperations [simp]: "snd (HasColumnOperations w) = w"
  by (simp add: HasColumnOperations_def)

lemma ce_FindAll [simp]: "commitEvents (snd (FindAll l w)) = commitEvents w"
proof (cases "GetQbsSameTransaction w")
  case (Pair r0 w0)
  then have w0: "w0 = w" using ce_GetQbs [of w] by simp
  show ?thesis
  proof (cases r0)
    case (Panicked p)
    with Pair w0 show ?thesis by (simp add: FindAll_def)
  next
    case (Normal q)
    show ?thesis
    proof (cases "map_of (prev w) l")
      case None
      with Pair Normal w0 show ?thesis by (simp add: FindAll_def)
    next
      case (Some pair)
      show ?thesis
      proof (cases "fieldsWithSuffix (typeRep pair) OLD")
        case (Panicked p)
        with Pair Normal w0 Some show ?thesis by (simp add: FindAll_def Let_def)
      next
        case omit: (Normal omit)
        let ?w1 = "trapColumnsForSqlite3 NEW w"
        let ?c = "QbsFindAll (typeof (typeRep pair)) omit (trapSuffix (FieldNameToColumnName ?w1))"
        obtain rr w2 where a: "ask ?c ?w1 = (rr, w2)" by (cases "ask ?c ?w1")
        have "commitEvents (snd (ask ?c ?w1)) = commitEvents ?w1" by (simp add: ce_ask)
        with a have c2: "commitEvents w2 = commitEvents w" by simp
        have "commitEvents (snd (Rollback (untrapColumnsForSqlite3 w2))) = commitEvents w" 
          using c2 by simp
        then show ?thesis using Pair Normal w0 Some omit a c2
          by (cases rr; cases "Rollback (untrapColumnsForSqlite3 w2)";
              cases "fst (Rollback (untrapColumnsForSqlite3 w2))")
             (simp_all add: FindAll_def Let_def)
      qed
    qed
  qed
qed

lemma ce_Save [simp]: "commitEvents (snd (Save l v w)) = commitEvents w"
proof (cases "checkLogicalName l v")
  case (Panicked p)
  then show ?thesis by (simp add: Save_def)
next
  case chk: (Normal uu)
  show ?thesis
  proof (cases "GetQbsSameTransaction w")
    case (Pair r0 w0)
    then have w0: "w0 = w" using ce_GetQbs [of w] by simp
    show ?thesis
    proof (cases r0)
      case (Panicked p)
      with chk Pair w0 show ?thesis by (simp add: Save_def)
    next
      case (Normal q)
      show ?thesis
      proof (cases "fieldsWithSuffix (the v) OLD")
        case (Panicked p)
        with chk Pair Normal w0 show ?thesis by (simp add: Save_def)
      next
        case omit: (Normal omit)
        let ?w1 = "trapColumnsForSqlite3 NEW w"
        let ?c = "QbsSave (the v) omit (trapSuffix (FieldNameToColumnName ?w1))"
        obtain rr w2 where a: "ask ?c ?w1 = (rr, w2)" by (cases "ask ?c ?w1")
        have "commitEvents (snd (ask ?c ?w1)) = commitEvents ?w1" by (simp add: ce_ask)
        with a have c2: "commitEvents w2 = commitEvents w" by simp
        have "commitEvents (snd (Rollback (untrapColumnsForSqlite3 w2))) = commitEvents w" 
          using c2 by simp
        then show ?thesis using chk Pair Normal w0 omit a c2
          by (cases rr; cases "Rollback (untrapColumnsForSqlite3 w2)";
              cases "fst (Rollback (untrapColumnsForSqlite3 w2))")
             (simp_all add: Save_def Let_def)
      qed
    qed
  qed
qed

lemma ce_exec [simp]: "commitEvents (snd (exec p w)) = commitEvents w"
proof (induction p arbitrary: w)
  case (Return r)
  show ?case by simp
next
  case (Panic p)
  show ?case by simp
next
  case (CallChangeTable l a b k)
  show ?case unfolding exec.simps
    by (rule ce_step) (simp_all add: CallChangeTable.IH split: res.splits)
next
  case (CallFindAll l k)
  show ?case unfolding exec.simps
    by (rule ce_step) (simp_all add: CallFindAll.IH split: res.splits)
next
  case (CallSave l v k)
  show ?case unfolding exec.simps
    by (rule ce_step) (simp_all add: CallSave.IH split: res.splits)
qed


lemma ce_migrate [simp]: "commitEvents (snd (migrate st rv w)) = commitEvents w"
proof -
  have d: "commitEvents (snd (case exec (Data st hco rv) w4 of
              (r5, w5) \<Rightarrow> (case r5 of Panicked p \<Rightarrow> (Panicked p, w5)
                 | Normal ce \<Rightarrow> (case ce of (count, e) \<Rightarrow>
                     (case e of Some err \<Rightarrow> (Normal (Some err), w5)
                      | None \<Rightarrow> removeOldRenameColumns w5))))) = commitEvents w4" for hco w4
    by (rule ce_step) (simp_all split: res.splits option.splits prod.splits)
  have h: "commitEvents (snd (case HasColumnOperations w3 of
              (r4, w4) \<Rightarrow> (case r4 of Panicked p \<Rightarrow> (Panicked p, w4)
                 | Normal hco \<Rightarrow> (case exec (Data st hco rv) w4 of
              (r5, w5) \<Rightarrow> (case r5 of Panicked p \<Rightarrow> (Panicked p, w5)
                 | Normal ce \<Rightarrow> (case ce of (count, e) \<Rightarrow>
                     (case e of Some err \<Rightarrow> (Normal (Some err), w5)
                      | None \<Rightarrow> removeOldRenameColumns w5))))))) = commitEvents w3" for w3
    by (rule ce_step) (simp_all add: d split: res.splits)
  have r: "commitEvents (snd (case renameCurrentTablesAddColumns rv' w2 of
              (r3, w3) \<Rightarrow> (case r3 of Panicked p \<Rightarrow> (Panicked p, w3)
                 | Normal dropped \<Rightarrow> (case HasColumnOperations w3 of
              (r4, w4) \<Rightarrow> (case r4 of Panicked p \<Rightarrow> (Panicked p, w4)
                 | Normal hco \<Rightarrow> (case exec (Data st hco rv) w4 of
              (r5, w5) \<Rightarrow> (case r5 of Panicked p \<Rightarrow> (Panicked p, w5)
                 | Normal ce \<Rightarrow> (case ce of (count, e) \<Rightarrow>
                     (case e of Some err \<Rightarrow> (Normal (Some err), w5)
                      | None \<Rightarrow> removeOldRenameColumns w5))))))))) = commitEvents w2" for w2 rv'
    by (rule ce_step) (simp_all add: h split: res.splits)
  have "commitEvents (snd (migrate st rv w)) = commitEvents (clear w)"
    unfolding migrate_def
    by (rule ce_step) (simp_all add: r split: res.splits option.splits)
  then show ?thesis by simp
qed

lemma ce_failStep [simp]: "commitEvents (snd (failStep err w)) = commitEvents w"
proof -
  have c: "commitEvents (snd (case Close w1 of (r2, w2) \<Rightarrow>
             (case r2 of Panicked p \<Rightarrow> (Panicked p, w2)
              | Normal u \<Rightarrow> (Normal (ReturnErr err), w2)))) = commitEvents w1" for w1
    by (rule ce_step) (simp_all split: res.splits)
  show ?thesis unfolding failStep_def
    by (rule ce_step) (simp_all add: c split: res.splits)
qed

lemma ce_loop_step:
  assumes ih: "\<And>w1. commitEvents (snd (next w1)) = commitEvents w1"
  shows "commitEvents (snd (case migrate st rv w of
                   (Panicked p, w1) \<Rightarrow> (Panicked p, w1)
                 | (Normal (Some err), w1) \<Rightarrow> failStep err w1
                 | (Normal None, w1) \<Rightarrow> next w1)) = commitEvents w"
  by (rule ce_step) (simp_all add: ih split: res.splits option.splits)

lemma ce_fwdLoop [simp]: "commitEvents (snd (fwdLoop info i til w)) = commitEvents w"
proof (induction "nat (til - i)" arbitrary: i w)
  case 0
  then have "\<not> i < til" by simp
  then show ?case by (simp add: fwdLoop.simps [of info i til w])
next
  case (Suc n)
  then have lt: "i < til" by simp
  have m: "n = nat (til - (i + 1))" using Suc.hyps(2) by simp
  show ?case
  proof (cases "index info i")
    case None
    with lt show ?thesis by (simp add: fwdLoop.simps [of info i til w])
  next
    case (Some st)
    show ?thesis using lt Some ce_loop_step [of "fwdLoop info (i + 1) til" st False w] Suc.hyps(1) [OF m]
      by (simp add: fwdLoop.simps [of info i til w])
  qed
qed

lemma ce_revLoop [simp]: "commitEvents (snd (revLoop info i til w)) = commitEvents w"
proof (induction "nat (i - til + 1)" arbitrary: i w)
  case 0
  then have "\<not> til \<le> i" by simp
  then show ?case by (simp add: revLoop.simps [of info i til w])
next
  case (Suc n)
  then have le: "til \<le> i" by simp
  have m: "n = nat (i - 1 - til + 1)" using Suc.hyps(2) by simp
  show ?case
  proof (cases "index info i")
    case None
    with le show ?thesis by (simp add: revLoop.simps [of info i til w])
  next
    case (Some st)
    show ?thesis using le Some ce_loop_step [of "revLoop info (i - 1) til" st True w] Suc.hyps(1) [OF m]
      by (simp add: revLoop.simps [of info i til w])
  qed
qed

lemma ce_Diag [simp]: "commitEvents (w\<lparr>trace := trace w @ [Diag x]\<rparr>) = commitEvents w"
  by (simp add: commitEvents_def)

lemma ce_recovered [simp]: "commitEvents (snd (recovered x w)) = commitEvents w"
proof -
  have c: "commitEvents (snd (case Close w2 of (r3, w3) \<Rightarrow>
             (case r3 of Panicked p \<Rightarrow> (Panicked p, w3)
              | Normal u \<Rightarrow> (Normal (Some (Error (Sprint x))), w3\<lparr>trace := trace w3 @ [Diag x]\<rparr>))))
           = commitEvents w2" for w2
    by (rule ce_step) (simp_all split: res.splits)
  have "commitEvents (snd (recovered x w)) = commitEvents (untrapColumnsForSqlite3 w)"
    unfolding recovered_def
    by (rule ce_step) (simp_all add: c split: res.splits)
  then show ?thesis by simp
qed

lemma recovered_not_nil: "fst (recovered x w) \<noteq> Normal None"
  by (simp add: recovered_def split: prod.splits res.splits)

lemma Commit_Normal:
  "Commit w = (Normal u, w') \<Longrightarrow>
     commitCalls w' = commitCalls w + 1 \<and> commitsDone w' = commitsDone w + 1"
  by (cases "respond w (trace w) TxCommit")
     (auto simp add: Commit_def ask_def Let_def commitCalls_def commitsDone_def commitEvents_def
       split: if_splits error.splits)

lemma Commit_Panicked:
  "Commit w = (Panicked p, w') \<Longrightarrow>
     commitCalls w' \<le> commitCalls w + 1 \<and> commitsDone w' = commitsDone w"
  by (cases "respond w (trace w) TxCommit")
     (auto simp add: Commit_def ask_def Let_def commitCalls_def commitsDone_def commitEvents_def
       split: if_splits error.splits)


lemma counts_ce:
  "commitEvents w' = commitEvents w \<Longrightarrow> commitCalls w' = commitCalls w \<and> commitsDone w' = commitsDone w"
  by (simp add: commitCalls_def commitsDone_def)

lemma RunBody_commits:
  assumes "RunBody info frm til w0 = (r, w2)"
  shows "(r = Normal None \<longrightarrow> commitCalls w2 = commitCalls w0 + 1 \<and> commitsDone w2 = commitsDone w0 + 1)
       \<and> (r \<noteq> Normal None \<longrightarrow> commitCalls w2 \<le> commitCalls w0 + 1 \<and> commitsDone w2 = commitsDone w0)"
proof -
  let ?l = "if frm < til then fwdLoop info frm til w0 else revLoop info (frm - 1) til w0"
  obtain r1 w1 where e1: "?l = (r1, w1)" by (cases ?l)
  have "commitEvents (snd ?l) = commitEvents w0" by simp
  with e1 have "commitEvents w1 = commitEvents w0" by simp
  note c1 = counts_ce [OF this]
  show ?thesis
  proof (cases r1)
    case (Panicked p)
    with e1 assms c1 show ?thesis by (auto simp add: RunBody_def)
  next
    case (Normal x)
    show ?thesis
    proof (cases x)
      case (ReturnErr err)
      with Normal e1 assms c1 show ?thesis by (auto simp add: RunBody_def)
    next
      case Completed
      obtain r3 w3 where e3: "Commit w1 = (r3, w3)" by (cases "Commit w1")
      show ?thesis
      proof (cases r3)
        case (Panicked p)
        with e3 Commit_Panicked [of w1 p w3] Completed Normal e1 assms c1 show ?thesis
          by (auto simp add: RunBody_def)
      next
        case n3: (Normal u)
        with e3 Commit_Normal [of w1 u w3] Completed Normal e1 assms c1 show ?thesis
          by (auto simp add: RunBody_def)
      qed
    qed
  qed
qed

lemma Run_commits:
  "(frm \<noteq> til \<and> fst (Run info frm til w) = Normal None \<longrightarrow>
       commitCalls (snd (Run info frm til w)) = commitCalls w + 1
     \<and> commitsDone (snd (Run info frm til w)) = commitsDone w + 1)
   \<and> (frm = til \<or> fst (Run info frm til w) \<noteq> Normal None \<longrightarrow>
       commitsDone (snd (Run info frm til w)) = commitsDone w)
   \<and> commitCalls (snd (Run info frm til w)) \<le> commitCalls w + 1"
proof (cases "frm = til")
  case True
  then show ?thesis by (simp add: Run_def)
next
  case False
  obtain r0 w0 where e0: "Begin w = (r0, w0)" by (cases "Begin w")
  have "commitEvents (snd (Begin w)) = commitEvents w" by simp
  with e0 have "commitEvents w0 = commitEvents w" by simp
  note c0 = counts_ce [OF this]
  show ?thesis
  proof (cases r0)
    case (Panicked p)
    with False e0 c0 show ?thesis by (simp add: Run_def)
  next
    case (Normal u)
    obtain r1 w1 where e1: "RunBody info frm til w0 = (r1, w1)"
      by (cases "RunBody info frm til w0")
    note b = RunBody_commits [OF e1]
    show ?thesis
    proof (cases r1)
      case n1: (Normal e)
      with False e0 Normal e1 b c0 show ?thesis by (auto simp add: Run_def)
    next
      case (Panicked x)
      have "commitEvents (snd (recovered x w1)) = commitEvents w1" by simp
      note c2 = counts_ce [OF this]
      have nn: "fst (recovered x w1) \<noteq> Normal None" by (rule recovered_not_nil)
      show ?thesis using False e0 Normal e1 Panicked b c0 c2 nn by (simp add: Run_def)
    qed
  qed
qed

text \<open>
  C2 at a failing input. The only step of the range drops \<open>Article\<close>; its data phase
  calls \<open>Save\<close>, the accessor fails, \<open>Save\<close> rolls the transaction back and returns the
  error, and the data phase ignores the error and returns nil. Finalization drops the
  table and \<open>migrate\<close> returns nil, so the loop of \<open>Run\<close> runs to its end: every step of
  the range has succeeded. \<open>Run\<close> then calls \<open>Commit\<close>, which panics because no
  transaction is in progress, before \<open>tx.Commit()\<close> is reached; the deferred function
  recovers and calls \<open>Rollback\<close>, whose panic leaves \<open>Run\<close>. Nothing has been committed.
  (When \<open>Run\<close> does return nil it has committed exactly once, and on a failure it has
  committed nothing: lemma \<open>Run_commits\<close>.)
\<close>

theorem Run_steps_succeed_without_commit:
  "fst (migrate Migrate_DropSwallow False (snd (Begin (NewSchema dbSaveFails)))) = Normal None
   \<and> fst (fwdLoop [Migrate_DropSwallow] 0 1 (snd (Begin (NewSchema dbSaveFails))))
     = Normal Completed
   \<and> fst (Commit (snd (fwdLoop [Migrate_DropSwallow] 0 1 (snd (Begin (NewSchema dbSaveFails))))))
     = Panicked (PString ''no transaction in progress, cannot commit'')
   \<and> fst (Run [Migrate_DropSwallow] 0 1 (NewSchema dbSaveFails))
     = Panicked (PString ''no transaction in progress, cannot rollback!'')
   \<and> trace (snd (Run [Migrate_DropSwallow] 0 1 (NewSchema dbSaveFails)))
     = [Ev DbBegin ROk, Ev (ExecRename ''article'' ''article_migration1'') ROk,
        Ev (QbsSave (VRef (VStruct ''Article_migration1'' [''Id'', ''Author'', ''Content''] 0))
          [] (Some ''NEW'')) (RErr (Error ''constraint failed'')),
        Ev TxRollback ROk,
        Ev (ExecDropTable ''article_migration1'') ROk]
   \<and> commitCalls (snd (Run [Migrate_DropSwallow] 0 1 (NewSchema dbSaveFails))) = 0"
  by code_simp

section \<open>The name format\<close>

lemma ParseInt_base10: "ParseInt s = Some n \<Longrightarrow> base10_integer s"
  by (cases s) (auto simp add: ParseInt_def base10_integer_def Let_def split: if_splits)

lemma SplitN2_shape: "(\<exists>l. SplitN2 n sep = [l]) \<or> (\<exists>l r. SplitN2 n sep = [l, r])"
  by (simp add: SplitN2_def split: option.splits)

lemma checkLogicalName_rejects:
  assumes "\<not> well_named L i"
  shows "\<exists>p. checkLogicalName L i = Panicked p"
proof (cases "structPair i")
  case (Panicked p)
  then show ?thesis by (simp add: checkLogicalName_def)
next
  case (Normal pair)
  with assms have nf: "\<not> name_format L (name pair)" by (simp add: well_named_def)
  from SplitN2_shape [of "name pair" "''_migration''"] show ?thesis
  proof
    assume "\<exists>l. SplitN2 (name pair) ''_migration'' = [l]"
    then obtain l where "SplitN2 (name pair) ''_migration'' = [l]" by blast
    with Normal show ?thesis by (simp add: checkLogicalName_def Let_def)
  next
    assume "\<exists>l r. SplitN2 (name pair) ''_migration'' = [l, r]"
    then obtain l r where lr: "SplitN2 (name pair) ''_migration'' = [l, r]" by blast
    with nf have "l \<noteq> L \<or> \<not> base10_integer r" by (simp add: name_format_def)
    then have "l \<noteq> L \<or> ParseInt r = None" using ParseInt_base10 [of r] by (cases "ParseInt r") auto
    with Normal lr show ?thesis by (auto simp add: checkLogicalName_def Let_def)
  qed
qed

text \<open>
  C8, as stated, fails for \<open>FindAll\<close>. Step \<open>Migrate_FromFoo\<close> registers under \<open>Article\<close>
  a previous shape whose type is named \<open>Foo\<close>, which \<open>checkLogicalName\<close> would reject;
  \<open>FindAll("Article")\<close> in its data phase operates on that shape, queries the database
  and returns, and the run ends with nil.
\<close>

theorem FindAll_no_name_check_counterexample:
  "checkLogicalName ''Article'' (new Foo)
     = Panicked (PString ''can't understand logical name Article with struct Foo'')
   \<and> \<not> well_named ''Article'' (new Foo)
   \<and> fst (Run [Migrate_FromFoo] 0 1 (NewSchema dbOk)) = Normal None
   \<and> calls (trace (snd (Run [Migrate_FromFoo] 0 1 (NewSchema dbOk))))
     = [DbBegin, ExecRename ''article'' ''foo'',
        ExecCreateTable ''article_migration2'' [''ContentOLD''] (Some ''NEW''),
        QbsFindAll (TPtr (TStruct ''Foo'' [''Id''])) [] (Some ''NEW''),
        ExecDropTable ''foo'',
        ExecRename ''article_migration2'' ''article'', TxCommit]"
  by code_simp

text \<open>
  C8, amended. \<open>Save(L, record)\<close> enforces the name format: when the record is not one
  whose type name splits on \<open>_migration\<close> into \<open>L\<close> and a base-10 integer,
  \<open>checkLogicalName\<close> panics and \<open>Save\<close> stops with that panic in the world it was called
  in, so before any call reaches the database.
\<close>

theorem Save_enforces_name_format:
  assumes "\<not> well_named L i"
  shows "\<exists>p. checkLogicalName L i = Panicked p \<and> Save L i w = (Panicked p, w)"
proof -
  from checkLogicalName_rejects [OF assms] obtain p where "checkLogicalName L i = Panicked p"
    by blast
  then show ?thesis by (simp add: Save_def)
qed

theorem Save_enforces_name_format_witness:
  "\<not> well_named ''Article'' (new Foo)
   \<and> (\<exists>p. checkLogicalName ''Article'' (new Foo) = Panicked p
          \<and> Save ''Article'' (new Foo) (NewSchema dbOk) = (Panicked p, NewSchema dbOk))"
proof -
  have a: "\<not> well_named ''Article'' (new Foo)" by code_simp
  from Save_enforces_name_format [OF a, of "NewSchema dbOk"] a show ?thesis by simp
qed

section \<open>Errors and panics of a step\<close>

text \<open>
  The two failure tests of the test file: a structure phase that returns an error makes
  \<open>Run\<close> roll back once, close the handle and return that error; one that panics makes
  \<open>Run\<close> roll back, close, print the diagnostic and return the panic as an error.
\<close>

lemma Run_Structure_error_returned:
  "fst (Run [Migrate_StructureError] 0 1 (NewSchema dbOk))
     = Normal (Some (Error ''simulated to check transactions''))
   \<and> trace (snd (Run [Migrate_StructureError] 0 1 (NewSchema dbOk)))
     = [Ev DbBegin ROk, Ev TxRollback ROk, Ev DbClose ROk]
   \<and> m_nil (snd (Run [Migrate_StructureError] 0 1 (NewSchema dbOk)))"
  by code_simp

lemma Run_Structure_panic_recovered:
  "fst (Run [Migrate_StructurePanic] 0 1 (NewSchema dbOk))
     = Normal (Some (Error ''simulated to check transactions''))
   \<and> trace (snd (Run [Migrate_StructurePanic] 0 1 (NewSchema dbOk)))
     = [Ev DbBegin ROk, Ev TxRollback ROk, Ev DbClose ROk,
        Diag (PString ''simulated to check transactions'')]
   \<and> m_nil (snd (Run [Migrate_StructurePanic] 0 1 (NewSchema dbOk)))"
  by code_simp

text \<open>
  C1 at a failing input. Step two's data phase calls \<open>Save\<close>; the accessor fails, \<open>Save\<close>
  rolls the transaction back itself and returns the error, and the data phase returns
  that error, so \<open>migrate\<close> returns it. \<open>Run\<close> then calls \<open>Rollback\<close> again, which panics
  because no transaction is in progress; the deferred function recovers this panic and
  calls \<open>Rollback\<close> once more, and the panic of that call leaves \<open>Run\<close>. The caller gets
  a panic instead of the error of the step, and the handle is not closed. The database
  has seen one rollback, that of \<open>Save\<close>.
\<close>

theorem Run_Save_error_second_rollback_panics:
  "fst (migrate Migrate2_SaveReturn False (snd (Begin (NewSchema dbSaveFails))))
     = Normal (Some (Error ''constraint failed''))
   \<and> fst (Run [Migrate1, Migrate2_SaveReturn] 1 2 (NewSchema dbSaveFails))
     = Panicked (PString ''no transaction in progress, cannot rollback!'')
   \<and> trace (snd (Run [Migrate1, Migrate2_SaveReturn] 1 2 (NewSchema dbSaveFails)))
     = [Ev DbBegin ROk, Ev (ExecRename ''article'' ''article_migration1'') ROk,
        Ev (ExecCreateTable ''article_migration2'' [''ContentOLD''] (Some ''NEW'')) ROk,
        Ev (QbsSave (VRef (VStruct ''Article_migration2''
           [''Id'', ''Author'', ''ContentOLD'', ''ContentNEW'', ''CreatedNEW'', ''UpdatedNEW''] 0))
          [''ContentOLD''] (Some ''NEW'')) (RErr (Error ''constraint failed'')),
        Ev TxRollback ROk]
   \<and> \<not> m_nil (snd (Run [Migrate1, Migrate2_SaveReturn] 1 2 (NewSchema dbSaveFails)))"
  by code_simp

text \<open>
  C3 at a failing input. Step two's data phase calls \<open>Save\<close>, the accessor fails, \<open>Save\<close>
  rolls the transaction back and returns the error, and the data phase panics with it.
  The deferred function of \<open>Run\<close> recovers the panic and calls \<open>Rollback\<close>, which panics
  because no transaction is in progress: this panic leaves \<open>Run\<close>. The handle is not
  closed, nothing is printed, and no error is returned.
\<close>

theorem Run_step_panic_after_Save_error_escapes:
  "fst (migrate Migrate2_SavePanic False (snd (Begin (NewSchema dbSaveFails))))
     = Panicked (PError (Error ''constraint failed''))
   \<and> fst (Run [Migrate1, Migrate2_SavePanic] 1 2 (NewSchema dbSaveFails))
     = Panicked (PString ''no transaction in progress, cannot rollback!'')
   \<and> trace (snd (Run [Migrate1, Migrate2_SavePanic] 1 2 (NewSchema dbSaveFails)))
     = [Ev DbBegin ROk, Ev (ExecRename ''article'' ''article_migration1'') ROk,
        Ev (ExecCreateTable ''article_migration2'' [''ContentOLD''] (Some ''NEW'')) ROk,
        Ev (QbsSave (VRef (VStruct ''Article_migration2''
           [''Id'', ''Author'', ''ContentOLD'', ''ContentNEW'', ''CreatedNEW'', ''UpdatedNEW''] 0))
          [''ContentOLD''] (Some ''NEW'')) (RErr (Error ''constraint failed'')),
        Ev TxRollback ROk]
   \<and> \<not> m_nil (snd (Run [Migrate1, Migrate2_SavePanic] 1 2 (NewSchema dbSaveFails)))"
  by code_simp

section \<open>The calls of the rename/shadow phase and of finalization\<close>

lemma calls_append [simp]: "calls (a @ b) = calls a @ calls b"
  by (induction a rule: calls.induct) simp_all

lemma newCalls_ext: "calls (trace w') = calls (trace w) @ cs \<Longrightarrow> newCalls w w' = cs"
  by (simp add: newCalls_def)

lemma RenameTable_ok:
  "RenameTable a b w = (Normal None, w') \<Longrightarrow>
     calls (trace w') = calls (trace w) @ [ExecRename a b] \<and> registry w' = registry w"
  by (auto simp add: RenameTable_def ask_def Let_def registry_def split: if_splits resp.splits)

lemma DropTable_ok:
  "DropTable v w = (Normal u, w') \<Longrightarrow>
     calls (trace w') = calls (trace w) @ [ExecDropTable (StructNameToTableName w (StructNameToTableName w (protoName v)))]
     \<and> registry w' = registry w"
  by (auto simp add: DropTable_def tableName_def ask_def Let_def registry_def protoName_def
      split: if_splits resp.splits gotype.splits)

lemma fieldsWithSuffix_ok:
  "fieldsWithSuffix v s = Normal omit \<Longrightarrow> omit = filter (\<lambda>f. HasSuffix f s) (protoFields v)"
  by (auto simp add: fieldsWithSuffix_def protoFields_def split: gotype.splits)

lemma CreateTable_ok:
  "CreateTable [] v omit w = (Normal None, w') \<Longrightarrow>
     calls (trace w') = calls (trace w)
        @ [ExecCreateTable (StructNameToTableName w (protoName v)) omit (trapSuffix (FieldNameToColumnName w))]
     \<and> registry w' = registry w \<and> names w' = names w"
  by (auto simp add: CreateTable_def tableName_def ask_def Let_def registry_def protoName_def names_def
      split: if_splits resp.splits gotype.splits)

lemma registry_trap [simp]: "registry (trapColumnsForSqlite3 s w) = registry w"
  by (simp add: registry_def trapColumnsForSqlite3_def)

lemma registry_untrap [simp]: "registry (untrapColumnsForSqlite3 w) = registry w"
  by (simp add: registry_def untrapColumnsForSqlite3_def Let_def split: option.splits)

lemma trace_trap [simp]: "trace (trapColumnsForSqlite3 s w) = trace w"
  by (simp add: trapColumnsForSqlite3_def)

lemma trace_untrap [simp]: "trace (untrapColumnsForSqlite3 w) = trace w"
  by (simp add: untrapColumnsForSqlite3_def Let_def split: option.splits)

lemma registry_S: "registry w' = registry w \<Longrightarrow> StructNameToTableName w' = StructNameToTableName w"
  by (simp add: registry_def)

lemma renameLoop_calls:
  "renameLoop ps w = (Normal None, w') \<Longrightarrow>
     calls (trace w') = calls (trace w) @ map (renameCall (StructNameToTableName w)) ps
     \<and> registry w' = registry w"
proof (induction ps arbitrary: w)
  case Nil
  then show ?case by simp
next
  case (Cons a ps)
  obtain l pr where a: "a = (l, pr)" by (cases a)
  let ?S = "StructNameToTableName w"
  obtain r1 w1 where e1: "RenameTable (?S l) (?S (name pr)) w = (r1, w1)"
    by (cases "RenameTable (?S l) (?S (name pr)) w")
  from Cons.prems a e1 have r1: "r1 = Normal None" and rest: "renameLoop ps w1 = (Normal None, w')"
    by (auto split: res.splits option.splits)
  from RenameTable_ok [OF e1 [unfolded r1]]
  have c1: "calls (trace w1) = calls (trace w) @ [ExecRename (?S l) (?S (name pr))]"
    and g1: "registry w1 = registry w" by simp_all
  from Cons.IH [OF rest] c1 g1 registry_S [OF g1] a show ?case
    by (simp add: renameCall_def)
qed

lemma moveLoop_calls:
  "moveLoop ps w = (Normal None, w') \<Longrightarrow>
     calls (trace w') = calls (trace w) @ map (moveCall (StructNameToTableName w)) ps
     \<and> registry w' = registry w"
proof (induction ps arbitrary: w)
  case Nil
  then show ?case by simp
next
  case (Cons a ps)
  obtain l pr where a: "a = (l, pr)" by (cases a)
  let ?S = "StructNameToTableName w"
  obtain r1 w1 where e1: "RenameTable (?S (name pr)) (?S l) w = (r1, w1)"
    by (cases "RenameTable (?S (name pr)) (?S l) w")
  from Cons.prems a e1 have r1: "r1 = Normal None" and rest: "moveLoop ps w1 = (Normal None, w')"
    by (auto split: res.splits option.splits)
  from RenameTable_ok [OF e1 [unfolded r1]]
  have c1: "calls (trace w1) = calls (trace w) @ [ExecRename (?S (name pr)) (?S l)]"
    and g1: "registry w1 = registry w" by simp_all
  from Cons.IH [OF rest] c1 g1 registry_S [OF g1] a show ?case
    by (simp add: moveCall_def)
qed

lemma dropLoop_calls:
  "dropLoop ps w = (Normal u, w') \<Longrightarrow>
     calls (trace w') = calls (trace w) @ map (dropCall (StructNameToTableName w)) ps
     \<and> registry w' = registry w"
proof (induction ps arbitrary: w)
  case Nil
  then show ?case by simp
next
  case (Cons a ps)
  obtain l pr where a: "a = (l, pr)" by (cases a)
  let ?S = "StructNameToTableName w"
  obtain r1 w1 where e1: "DropTable (typeRep pr) w = (r1, w1)"
    by (cases "DropTable (typeRep pr) w")
  from Cons.prems a e1 obtain u1 where r1: "r1 = Normal u1" and rest: "dropLoop ps w1 = (Normal u, w')"
    by (auto split: res.splits)
  from DropTable_ok [OF e1 [unfolded r1]]
  have c1: "calls (trace w1) = calls (trace w) @ [ExecDropTable (?S (?S (protoName (typeRep pr))))]"
    and g1: "registry w1 = registry w" by simp_all
  from Cons.IH [OF rest] c1 g1 registry_S [OF g1] a show ?case
    by (simp add: dropCall_def)
qed

lemma createLoop_calls:
  "createLoop cs w = (Normal None, w') \<Longrightarrow>
     calls (trace w') = calls (trace w) @ map (createCall (StructNameToTableName w)) cs
     \<and> registry w' = registry w"
proof (induction cs arbitrary: w)
  case Nil
  then show ?case by simp
next
  case (Cons a cs)
  obtain l pr where a: "a = (l, pr)" by (cases a)
  let ?S = "StructNameToTableName w"
  let ?w1 = "trapColumnsForSqlite3 NEW w"
  from Cons.prems a obtain omit where f: "fieldsWithSuffix (typeRep pr) OLD = Normal omit"
    by (cases "fieldsWithSuffix (typeRep pr) OLD") (auto simp add: Let_def)
  obtain r2 w2 where e2: "CreateTable [] (typeRep pr) omit ?w1 = (r2, w2)"
    by (cases "CreateTable [] (typeRep pr) omit ?w1")
  from Cons.prems a f e2 have r2: "r2 = Normal None"
    and rest: "createLoop cs (untrapColumnsForSqlite3 w2) = (Normal None, w')"
    by (auto simp add: Let_def split: res.splits option.splits)
  have S1: "StructNameToTableName ?w1 = ?S" and F1: "FieldNameToColumnName ?w1 = FieldTrap NEW"
    by (simp_all add: trapColumnsForSqlite3_def)
  from CreateTable_ok [OF e2 [unfolded r2]] S1 F1
  have c2: "calls (trace w2) = calls (trace w) @ [ExecCreateTable (?S (protoName (typeRep pr))) omit (Some NEW)]"
    and g2: "registry w2 = registry w" by simp_all
  have g3: "registry (untrapColumnsForSqlite3 w2) = registry w" using g2 by simp
  from Cons.IH [OF rest] c2 g3 registry_S [OF g3] a fieldsWithSuffix_ok [OF f] show ?case
    by (simp add: createCall_def)
qed

lemma renameCurrentTablesAddColumns_calls:
  assumes "fst (renameCurrentTablesAddColumns rv w) = Normal None"
  shows "newCalls w (snd (renameCurrentTablesAddColumns rv w))
       = map (renameCall (StructNameToTableName w)) (prev w)
         @ map (createCall (StructNameToTableName w)) (curr w)"
proof -
  obtain r1 w1 where e1: "renameLoop (prev w) w = (r1, w1)" by (cases "renameLoop (prev w) w")
  obtain r2 w2 where e2: "createLoop (curr w1) w1 = (r2, w2)" by (cases "createLoop (curr w1) w1")
  from assms e1 e2 have r1: "r1 = Normal None" and r2: "r2 = Normal None"
    and res: "snd (renameCurrentTablesAddColumns rv w) = w2"
    by (auto simp add: renameCurrentTablesAddColumns_def split: res.splits option.splits)
  from renameLoop_calls [OF e1 [unfolded r1]]
  have c1: "calls (trace w1) = calls (trace w) @ map (renameCall (StructNameToTableName w)) (prev w)"
    and g1: "registry w1 = registry w" by simp_all
  from g1 have k: "curr w1 = curr w" "StructNameToTableName w1 = StructNameToTableName w"
    by (simp_all add: registry_def)
  from createLoop_calls [OF e2 [unfolded r2]] c1 k
  have "calls (trace w2) = calls (trace w) @ (map (renameCall (StructNameToTableName w)) (prev w)
         @ map (createCall (StructNameToTableName w)) (curr w))" by simp
  from newCalls_ext [OF this] res show ?thesis by simp
qed

lemma removeOldRenameColumns_calls:
  assumes "fst (removeOldRenameColumns w) = Normal None"
  shows "newCalls w (snd (removeOldRenameColumns w))
       = map (dropCall (StructNameToTableName w)) (prev w)
         @ map (moveCall (StructNameToTableName w)) (curr w)"
proof -
  obtain r1 w1 where e1: "dropLoop (prev w) w = (r1, w1)" by (cases "dropLoop (prev w) w")
  obtain r2 w2 where e2: "moveLoop (curr w1) w1 = (r2, w2)" by (cases "moveLoop (curr w1) w1")
  from assms e1 e2 obtain u where r1: "r1 = Normal u" and r2: "r2 = Normal None"
    and res: "snd (removeOldRenameColumns w) = w2"
    by (auto simp add: removeOldRenameColumns_def split: res.splits option.splits)
  from dropLoop_calls [OF e1 [unfolded r1]]
  have c1: "calls (trace w1) = calls (trace w) @ map (dropCall (StructNameToTableName w)) (prev w)"
    and g1: "registry w1 = registry w" by simp_all
  from g1 have k: "curr w1 = curr w" "StructNameToTableName w1 = StructNameToTableName w"
    by (simp_all add: registry_def)
  from moveLoop_calls [OF e2 [unfolded r2]] c1 k
  have "calls (trace w2) = calls (trace w) @ (map (dropCall (StructNameToTableName w)) (prev w)
         @ map (moveCall (StructNameToTableName w)) (curr w))" by simp
  from newCalls_ext [OF this] res show ?thesis by simp
qed


text \<open>The default table-name mapping is idempotent: its result has no upper-case letter.\<close>

lemma is_upper_to_lower: "is_upper c \<Longrightarrow> \<not> is_upper (to_lower c)"
  by (simp add: is_upper_def to_lower_def)

lemma toSnakeFrom_no_upper: "\<forall>c \<in> set (toSnakeFrom b s). \<not> is_upper c"
proof (induction s arbitrary: b)
  case Nil
  show ?case by simp
next
  case (Cons c cs)
  have u: "\<not> is_upper CHR ''_''" by (simp add: is_upper_def)
  show ?case using Cons.IH [of False] u by (auto simp add: is_upper_to_lower)
qed

lemma toSnakeFrom_id: "\<forall>c \<in> set s. \<not> is_upper c \<Longrightarrow> toSnakeFrom b s = s"
  by (induction s arbitrary: b) simp_all

lemma toSnake_idem: "toSnake (toSnake s) = toSnake s"
  unfolding toSnake_def by (rule toSnakeFrom_id) (rule toSnakeFrom_no_upper)

text \<open>
  C5, as stated, fails. In the forward run of step two, which declares \<open>Article\<close> in both
  \<open>prev\<close> and \<open>curr\<close>, the new table is created as \<open>article_migration2\<close>, the physical
  name of the new record type, and not as \<open>article\<close>, the physical name of the logical
  name; and finalization, after dropping \<open>article_migration1\<close>, renames
  \<open>article_migration2\<close> to \<open>article\<close>.
\<close>

theorem new_table_under_type_name_counterexample:
  "toSnake ''Article'' = ''article''
   \<and> fst (Run [Migrate1, Migrate2_NoData] 1 2 (NewSchema dbOk)) = Normal None
   \<and> calls (trace (snd (Run [Migrate1, Migrate2_NoData] 1 2 (NewSchema dbOk))))
     = [DbBegin, ExecRename ''article'' ''article_migration1'',
        ExecCreateTable ''article_migration2'' [''ContentOLD''] (Some ''NEW''),
        ExecDropTable ''article_migration1'',
        ExecRename ''article_migration2'' ''article'', TxCommit]"
  by code_simp

text \<open>
  C5, amended. Let \<open>L\<close> be registered in both \<open>prev\<close> (as \<open>p\<close>) and \<open>curr\<close> (as \<open>c\<close>).
  When the rename/shadow phase goes through, it has renamed \<open>physical(L)\<close> to
  \<open>physical(p.name)\<close> and, under the trap for the suffix \<open>NEW\<close> and omitting the fields
  that end in \<open>OLD\<close>, created the new table under the physical name of the type of
  \<open>c\<close>'s prototype. When finalization goes through, it has dropped the table named by the
  type of \<open>p\<close>'s prototype (the mapping applied twice) and renamed \<open>physical(c.name)\<close>
  to \<open>physical(L)\<close>.
\<close>

theorem shape_change_phases:
  assumes "(L, p) \<in> set (prev w)" and "(L, c) \<in> set (curr w)"
  shows "(fst (renameCurrentTablesAddColumns rv w) = Normal None \<longrightarrow>
            ExecRename (StructNameToTableName w L) (StructNameToTableName w (name p))
              \<in> set (newCalls w (snd (renameCurrentTablesAddColumns rv w)))
          \<and> ExecCreateTable (StructNameToTableName w (protoName (typeRep c)))
                (filter (\<lambda>f. HasSuffix f OLD) (protoFields (typeRep c))) (Some NEW)
              \<in> set (newCalls w (snd (renameCurrentTablesAddColumns rv w))))
       \<and> (fst (removeOldRenameColumns w) = Normal None \<longrightarrow>
            ExecDropTable (StructNameToTableName w (StructNameToTableName w (protoName (typeRep p))))
              \<in> set (newCalls w (snd (removeOldRenameColumns w)))
          \<and> ExecRename (StructNameToTableName w (name c)) (StructNameToTableName w L)
              \<in> set (newCalls w (snd (removeOldRenameColumns w))))"
proof -
  let ?S = "StructNameToTableName w"
  have r: "renameCall ?S (L, p) = ExecRename (?S L) (?S (name p))"
    and k: "createCall ?S (L, c) = ExecCreateTable (?S (protoName (typeRep c)))
                (filter (\<lambda>f. HasSuffix f OLD) (protoFields (typeRep c))) (Some NEW)"
    and d: "dropCall ?S (L, p) = ExecDropTable (?S (?S (protoName (typeRep p))))"
    and m: "moveCall ?S (L, c) = ExecRename (?S (name c)) (?S L)"
    by (simp_all add: renameCall_def createCall_def dropCall_def moveCall_def)
  have rp: "renameCall ?S (L, p) \<in> set (map (renameCall ?S) (prev w))"
    and dp: "dropCall ?S (L, p) \<in> set (map (dropCall ?S) (prev w))"
    using assms(1) by auto
  have kc: "createCall ?S (L, c) \<in> set (map (createCall ?S) (curr w))"
    and mc: "moveCall ?S (L, c) \<in> set (map (moveCall ?S) (curr w))"
    using assms(2) by auto
  show ?thesis
    using renameCurrentTablesAddColumns_calls [of rv w] removeOldRenameColumns_calls [of w]
      rp dp kc mc
    unfolding r k d m by auto
qed

theorem shape_change_phases_witness:
  "(''Article'', \<lparr>name = ''Article_migration1'',
       typeRep = VRef (VStruct ''Article_migration1'' [''Id'', ''Author'', ''Content''] 0)\<rparr>)
     \<in> set (prev declared2)
   \<and> (''Article'', \<lparr>name = ''Article_migration2'',
       typeRep = VRef (VStruct ''Article_migration2''
         [''Id'', ''Author'', ''ContentOLD'', ''ContentNEW'', ''CreatedNEW'', ''UpdatedNEW''] 0)\<rparr>)
     \<in> set (curr declared2)
   \<and> fst (renameCurrentTablesAddColumns False declared2) = Normal None
   \<and> ExecRename ''article'' ''article_migration1''
       \<in> set (newCalls declared2 (snd (renameCurrentTablesAddColumns False declared2)))
   \<and> ExecCreateTable ''article_migration2'' [''ContentOLD''] (Some ''NEW'')
       \<in> set (newCalls declared2 (snd (renameCurrentTablesAddColumns False declared2)))
   \<and> fst (removeOldRenameColumns declared2) = Normal None
   \<and> ExecDropTable ''article_migration1''
       \<in> set (newCalls declared2 (snd (removeOldRenameColumns declared2)))
   \<and> ExecRename ''article_migration2'' ''article''
       \<in> set (newCalls declared2 (snd (removeOldRenameColumns declared2)))"
proof -
  let ?p = "\<lparr>name = ''Article_migration1'',
       typeRep = VRef (VStruct ''Article_migration1'' [''Id'', ''Author'', ''Content''] 0)\<rparr>"
  let ?c = "\<lparr>name = ''Article_migration2'',
       typeRep = VRef (VStruct ''Article_migration2''
         [''Id'', ''Author'', ''ContentOLD'', ''ContentNEW'', ''CreatedNEW'', ''UpdatedNEW''] 0)\<rparr>"
  have a: "(''Article'', ?p) \<in> set (prev declared2)" by code_simp
  have b: "(''Article'', ?c) \<in> set (curr declared2)" by code_simp
  have r1: "fst (renameCurrentTablesAddColumns False declared2) = Normal None" by code_simp
  have r2: "fst (removeOldRenameColumns declared2) = Normal None" by code_simp
  have s: "StructNameToTableName declared2 ''Article'' = ''article''"
    "StructNameToTableName declared2 ''Article_migration1'' = ''article_migration1''"
    "StructNameToTableName declared2 ''article_migration1'' = ''article_migration1''"
    "StructNameToTableName declared2 ''Article_migration2'' = ''article_migration2''"
    by code_simp+
  have f: "filter (\<lambda>f. HasSuffix f OLD)
        [''Id'', ''Author'', ''ContentOLD'', ''ContentNEW'', ''CreatedNEW'', ''UpdatedNEW'']
      = [''ContentOLD'']" by code_simp
  show ?thesis
    using shape_change_phases [OF a b, of False] a b r1 r2
    by (simp add: s f protoName_def protoFields_def NEW_def del: filter.simps)
qed

text \<open>
  C6, as stated, fails. In the backward run of step one \<open>Article\<close> is registered in \<open>prev\<close>
  only, and the rename/shadow phase renames \<open>article\<close> to \<open>article_migration1\<close>; it is
  under that name that finalization drops the table.
\<close>

theorem pure_drop_renamed_counterexample:
  "fst (Run [Migrate1, Migrate2_NoData] 1 0 (NewSchema dbOk)) = Normal None
   \<and> map fst (prev (snd (Run [Migrate1, Migrate2_NoData] 1 0 (NewSchema dbOk)))) = [''Article'']
   \<and> curr (snd (Run [Migrate1, Migrate2_NoData] 1 0 (NewSchema dbOk))) = []
   \<and> calls (trace (snd (Run [Migrate1, Migrate2_NoData] 1 0 (NewSchema dbOk))))
     = [DbBegin, ExecRename ''article'' ''article_migration1'',
        ExecDropTable ''article_migration1'', TxCommit]"
  by code_simp

text \<open>
  C6, amended. Let \<open>L\<close> be registered in \<open>prev\<close> (as \<open>p\<close>) and not in \<open>curr\<close>. When the
  rename/shadow phase goes through, it has renamed \<open>physical(L)\<close> to \<open>physical(p.name)\<close>,
  and the tables it has created are those of the other logical names. When finalization
  goes through, it has dropped the table named by the type of \<open>p\<close>'s prototype (the
  mapping applied twice).
\<close>

theorem pure_drop_phases:
  assumes "(L, p) \<in> set (prev w)" and "L \<notin> fst ` set (curr w)"
  shows "(fst (renameCurrentTablesAddColumns rv w) = Normal None \<longrightarrow>
            ExecRename (StructNameToTableName w L) (StructNameToTableName w (name p))
              \<in> set (newCalls w (snd (renameCurrentTablesAddColumns rv w)))
          \<and> newCalls w (snd (renameCurrentTablesAddColumns rv w))
              = map (renameCall (StructNameToTableName w)) (prev w)
                @ map (createCall (StructNameToTableName w)) (filter (\<lambda>e. fst e \<noteq> L) (curr w)))
       \<and> (fst (removeOldRenameColumns w) = Normal None \<longrightarrow>
            ExecDropTable (StructNameToTableName w (StructNameToTableName w (protoName (typeRep p))))
              \<in> set (newCalls w (snd (removeOldRenameColumns w))))"
proof -
  let ?S = "StructNameToTableName w"
  have r: "renameCall ?S (L, p) = ExecRename (?S L) (?S (name p))"
    and d: "dropCall ?S (L, p) = ExecDropTable (?S (?S (protoName (typeRep p))))"
    by (simp_all add: renameCall_def dropCall_def)
  have rp: "renameCall ?S (L, p) \<in> set (map (renameCall ?S) (prev w))"
    and dp: "dropCall ?S (L, p) \<in> set (map (dropCall ?S) (prev w))"
    using assms(1) by auto
  have f: "filter (\<lambda>e. fst e \<noteq> L) (curr w) = curr w"
    using assms(2) by (auto simp add: filter_id_conv)
  show ?thesis
    using renameCurrentTablesAddColumns_calls [of rv w] removeOldRenameColumns_calls [of w]
      rp dp f
    unfolding r d by auto
qed


theorem pure_drop_phases_witness:
  "(''Article'', \<lparr>name = ''Article_migration1'',
       typeRep = VRef (VStruct ''Article_migration1'' [''Id'', ''Author'', ''Content''] 0)\<rparr>)
     \<in> set (prev declared1_reversed)
   \<and> ''Article'' \<notin> fst ` set (curr declared1_reversed)
   \<and> fst (renameCurrentTablesAddColumns True declared1_reversed) = Normal None
   \<and> ExecRename ''article'' ''article_migration1''
       \<in> set (newCalls declared1_reversed (snd (renameCurrentTablesAddColumns True declared1_reversed)))
   \<and> fst (removeOldRenameColumns declared1_reversed) = Normal None
   \<and> ExecDropTable ''article_migration1''
       \<in> set (newCalls declared1_reversed (snd (removeOldRenameColumns declared1_reversed)))"
proof -
  let ?p = "\<lparr>name = ''Article_migration1'',
       typeRep = VRef (VStruct ''Article_migration1'' [''Id'', ''Author'', ''Content''] 0)\<rparr>"
  have a: "(''Article'', ?p) \<in> set (prev declared1_reversed)" by code_simp
  have c: "curr declared1_reversed = []" by code_simp
  then have b: "''Article'' \<notin> fst ` set (curr declared1_reversed)" by simp
  have r1: "fst (renameCurrentTablesAddColumns True declared1_reversed) = Normal None" by code_simp
  have r2: "fst (removeOldRenameColumns declared1_reversed) = Normal None" by code_simp
  have s: "StructNameToTableName declared1_reversed ''Article'' = ''article''"
    "StructNameToTableName declared1_reversed ''Article_migration1'' = ''article_migration1''"
    "StructNameToTableName declared1_reversed ''article_migration1'' = ''article_migration1''"
    by code_simp+
  note t = pure_drop_phases [OF a b, of True]
  from t r1 have x1: "ExecRename (StructNameToTableName declared1_reversed ''Article'')
        (StructNameToTableName declared1_reversed (name ?p))
      \<in> set (newCalls declared1_reversed (snd (renameCurrentTablesAddColumns True declared1_reversed)))"
    by blast
  from t r2 have x2: "ExecDropTable (StructNameToTableName declared1_reversed
        (StructNameToTableName declared1_reversed (protoName (typeRep ?p))))
      \<in> set (newCalls declared1_reversed (snd (removeOldRenameColumns declared1_reversed)))"
    by blast
  show ?thesis
    using x1 x2 a b r1 r2
    by (simp add: s protoName_def)
qed

text \<open>
  For a pair that the introspector builds from a well-typed value, the name of the
  prototype's type is the pair's name.
\<close>

lemma hd_typeof: "vs \<noteq> [] \<Longrightarrow> \<forall>v \<in> set vs. wt v \<and> typeof v = t \<Longrightarrow> typeof (hd vs) = t"
  by (cases vs) simp_all

lemma structPair_protoName:
  "wt v \<Longrightarrow> structPair (Some v) = Normal c \<Longrightarrow> protoName (typeRep c) = name c"
  by (auto simp add: structPair_def protoName_def reflect_New_def
      split: goval.splits gotype.splits if_splits dest: hd_typeof)

end
